theory Spec2Isabelle
  imports Complex_Main "HOL-Library.Multiset" "HOL-Library.Char_ord" "HOL-Library.List_Lexorder"
    "HOL-Library.Product_Lexorder"
begin

section \<open>MuSync: track reconciliation and transfer pipeline\<close>

text \<open>
  A shallow embedding of \<^verbatim>\<open>app/domain/normalization.py\<close>,
  \<^verbatim>\<open>app/application/matching.py\<close>, \<^verbatim>\<open>app/application/idempotency.py\<close> and
  \<^verbatim>\<open>app/application/pipeline.py\<close>.

  Python \<^verbatim>\<open>str\<close> values are modelled as \<^typ>\<open>string\<close>, one \<^typ>\<open>char\<close> per code
  point. The character classes below are those of Python on ASCII text: on code points
  above 127 the Unicode tables of \<^verbatim>\<open>unicodedata\<close> and \<^verbatim>\<open>re\<close> are not modelled, so
  the model follows the source on ASCII strings.
\<close>

subsection \<open>Character classes of \<^verbatim>\<open>re\<close> and \<^verbatim>\<open>str\<close>\<close>

definition is_word_char :: "char \<Rightarrow> bool" where
  \<comment> \<open>\<^verbatim>\<open>\w\<close>: letters, digits and the underscore.\<close>
  "is_word_char c \<longleftrightarrow>
     c \<in> set ''abcdefghijklmnopqrstuvwxyzABCDEFGHIJKLMNOPQRSTUVWXYZ0123456789_''"

definition is_space_char :: "char \<Rightarrow> bool" where
  \<comment> \<open>\<^verbatim>\<open>\s\<close> and \<^verbatim>\<open>str.isspace\<close>: tab, LF, VT, FF, CR, FS, GS, RS, US and the space.\<close>
  "is_space_char c \<longleftrightarrow>
     c \<in> set [CHR 0x09, CHR 0x0A, CHR 0x0B, CHR 0x0C, CHR 0x0D,
               CHR 0x1C, CHR 0x1D, CHR 0x1E, CHR 0x1F, CHR '' '']"

definition is_digit_char :: "char \<Rightarrow> bool" where
  "is_digit_char c \<longleftrightarrow> c \<in> set ''0123456789''"

definition is_opener :: "char \<Rightarrow> bool" where
  \<comment> \<open>The class \<^verbatim>\<open>[\(\[\{]\<close>.\<close>
  "is_opener c \<longleftrightarrow> c \<in> set ''([{''"

definition is_closer :: "char \<Rightarrow> bool" where
  \<comment> \<open>The class \<^verbatim>\<open>[\)\]\}]\<close>.\<close>
  "is_closer c \<longleftrightarrow> c \<in> set '')]}''"

definition lower_char :: "char \<Rightarrow> char" where
  "lower_char c =
     (case map_of (zip ''ABCDEFGHIJKLMNOPQRSTUVWXYZ'' ''abcdefghijklmnopqrstuvwxyz'') c of
        Some d \<Rightarrow> d
      | None \<Rightarrow> c)"

definition lower :: "string \<Rightarrow> string" where
  \<comment> \<open>\<^verbatim>\<open>str.lower\<close>.\<close>
  "lower s = map lower_char s"

definition replace_char :: "char \<Rightarrow> string \<Rightarrow> string \<Rightarrow> string" where
  \<comment> \<open>\<^verbatim>\<open>value.replace(c, r)\<close> for a one-character pattern.\<close>
  "replace_char c r s = concat (map (\<lambda>x. if x = c then r else [x]) s)"

definition strip :: "string \<Rightarrow> string" where
  \<comment> \<open>\<^verbatim>\<open>str.strip()\<close>.\<close>
  "strip s = rev (dropWhile is_space_char (rev (dropWhile is_space_char s)))"

fun split_ws :: "string \<Rightarrow> string \<Rightarrow> string list" where
  \<comment> \<open>\<^verbatim>\<open>str.split()\<close>: the maximal runs of non-whitespace; the first argument is the
      run being read, reversed.\<close>
  "split_ws acc [] = (if acc = [] then [] else [rev acc])"
| "split_ws acc (c # cs) =
     (if is_space_char c then (if acc = [] then split_ws [] cs else rev acc # split_ws [] cs)
      else split_ws (c # acc) cs)"

definition split :: "string \<Rightarrow> string list" where
  "split s = split_ws [] s"

definition isdigit :: "string \<Rightarrow> bool" where
  \<comment> \<open>\<^verbatim>\<open>str.isdigit()\<close>: non-empty and all digits.\<close>
  "isdigit s \<longleftrightarrow> s \<noteq> [] \<and> list_all is_digit_char s"

fun join :: "string \<Rightarrow> string list \<Rightarrow> string" where
  \<comment> \<open>\<^verbatim>\<open>sep.join(xs)\<close>.\<close>
  "join sep [] = []"
| "join sep [x] = x"
| "join sep (x # y # ys) = x @ sep @ join sep (y # ys)"

subsection \<open>The regular-expression substitutions of \<^verbatim>\<open>normalization.py\<close>\<close>

definition word_boundary :: "char option \<Rightarrow> string \<Rightarrow> bool" where
  \<comment> \<open>\<^verbatim>\<open>\b\<close> between the character before the position (if any) and the rest.\<close>
  "word_boundary prev rest \<longleftrightarrow>
     (case prev of None \<Rightarrow> False | Some p \<Rightarrow> is_word_char p)
       \<noteq> (case rest of [] \<Rightarrow> False | n # _ \<Rightarrow> is_word_char n)"

definition ci_prefix :: "string \<Rightarrow> string \<Rightarrow> bool" where
  \<comment> \<open>The lower-case literal \<open>p\<close> matches at the start of \<open>s\<close>, ignoring case.\<close>
  "ci_prefix p s \<longleftrightarrow> length p \<le> length s \<and> map lower_char (take (length p) s) = p"

definition feat_match :: "char option \<Rightarrow> string \<Rightarrow> nat option" where
  \<comment> \<open>\<^verbatim>\<open>\b(feat\.?|ft\.)\b\<close> with IGNORECASE, tried at one position: the length of the match,
      in the order the backtracking matcher tries the alternatives.\<close>
  "feat_match prev s =
     (if \<not> word_boundary prev s then None
      else if ci_prefix ''feat.'' s \<and> word_boundary (Some CHR ''.'') (drop 5 s) then Some 5
      else if ci_prefix ''feat'' s \<and> word_boundary (Some CHR ''t'') (drop 4 s) then Some 4
      else if ci_prefix ''ft.'' s \<and> word_boundary (Some CHR ''.'') (drop 3 s) then Some 3
      else None)"

fun feat_sub :: "nat \<Rightarrow> char option \<Rightarrow> string \<Rightarrow> string" where
  \<comment> \<open>\<^verbatim>\<open>_FEAT_PATTERN.sub(" ", value)\<close>, left to right; the first argument counts the
      characters of the current match still to be skipped, the second is the character
      before the position.\<close>
  "feat_sub k prev [] = []"
| "feat_sub (Suc k) prev (c # cs) = feat_sub k (Some c) cs"
| "feat_sub 0 prev (c # cs) =
     (case feat_match prev (c # cs) of
        Some n \<Rightarrow> CHR '' '' # feat_sub (n - 1) (Some c) cs
      | None \<Rightarrow> c # feat_sub 0 (Some c) cs)"

definition parens_match :: "string \<Rightarrow> nat option" where
  \<comment> \<open>\<^verbatim>\<open>\s*[\(\[\{][^\)\]\}]*[\)\]\}]\s*\<close> tried at one position: the length of the match.\<close>
  "parens_match s =
     (case dropWhile is_space_char s of
        [] \<Rightarrow> None
      | opn # b \<Rightarrow>
          if is_opener opn then
            (case dropWhile (\<lambda>x. \<not> is_closer x) b of
               [] \<Rightarrow> None
             | _ # d \<Rightarrow> Some (length s - length (dropWhile is_space_char d)))
          else None)"

fun parens_sub :: "nat \<Rightarrow> string \<Rightarrow> string" where
  \<comment> \<open>\<^verbatim>\<open>_PARENS_CONTENT_PATTERN.sub(" ", value)\<close>; the first argument counts the characters
      of the current match still to be skipped.\<close>
  "parens_sub k [] = []"
| "parens_sub (Suc k) (c # cs) = parens_sub k cs"
| "parens_sub 0 (c # cs) =
     (case parens_match (c # cs) of
        Some n \<Rightarrow> CHR '' '' # parens_sub (n - 1) cs
      | None \<Rightarrow> c # parens_sub 0 cs)"

fun multispace_sub :: "bool \<Rightarrow> string \<Rightarrow> string" where
  \<comment> \<open>\<^verbatim>\<open>_MULTISPACE_PATTERN.sub(" ", value)\<close>; the flag says that the position is inside a
      run of whitespace already replaced.\<close>
  "multispace_sub inrun [] = []"
| "multispace_sub inrun (c # cs) =
     (if is_space_char c then
        (if inrun then multispace_sub True cs else CHR '' '' # multispace_sub True cs)
      else c # multispace_sub False cs)"

function parens_loop :: "string \<Rightarrow> string" where
  \<comment> \<open>The \<^verbatim>\<open>while True\<close> loop of \<^verbatim>\<open>normalize_string\<close>: substitute until nothing changes.\<close>
  "parens_loop v = (if parens_sub 0 v = v then v else parens_loop (parens_sub 0 v))"
  by pat_completeness auto
termination
proof (relation "measure length")
  show "wf (measure length)" by simp
next
  have bounds: "2 \<le> n \<and> n \<le> length s" if a: "parens_match s = Some n" for s n
  proof -
    obtain opn b where ob: "dropWhile is_space_char s = opn # b" and op: "is_opener opn"
      using a by (auto simp: parens_match_def split: list.splits if_splits)
    obtain x d where d: "dropWhile (\<lambda>x. \<not> is_closer x) b = x # d"
      and n: "n = length s - length (dropWhile is_space_char d)"
      using a ob op by (auto simp: parens_match_def split: list.splits if_splits)
    have "length (dropWhile is_space_char d) \<le> length d"
      by (rule length_dropWhile_le)
    moreover have "length (x # d) \<le> length b"
      using d length_dropWhile_le[of "\<lambda>x. \<not> is_closer x" b] by simp
    moreover have "length (opn # b) \<le> length s"
      using ob length_dropWhile_le[of is_space_char s] by simp
    ultimately show ?thesis using n by simp
  qed
  have le: "length (parens_sub k s) \<le> length s" for k s
  proof (induction k s rule: parens_sub.induct)
    case (3 c cs)
    then show ?case by (auto split: option.splits intro: le_SucI)
  qed auto
  have shorter: "parens_sub 0 s \<noteq> s \<Longrightarrow> length (parens_sub 0 s) < length s" for s
  proof (induction s)
    case Nil
    then show ?case by simp
  next
    case (Cons c cs)
    show ?case
    proof (cases "parens_match (c # cs)")
      case None
      with Cons show ?thesis by auto
    next
      case (Some n)
      then have n: "2 \<le> n" "n \<le> length (c # cs)" using bounds by blast+
      then obtain k where k: "n - 1 = Suc k" by (cases "n - 1") auto
      from n obtain d ds where cs: "cs = d # ds" by (cases cs) auto
      have "length (parens_sub (Suc k) (d # ds)) \<le> length ds" using le[of k ds] by simp
      then show ?thesis using Some k cs by simp
    qed
  qed
  fix v :: string
  assume "parens_sub 0 v \<noteq> v"
  then show "(parens_sub 0 v, v) \<in> measure length" using shorter by simp
qed

declare parens_loop.simps [simp del]

definition strip_diacritics :: "string \<Rightarrow> string" where
  \<comment> \<open>\<^verbatim>\<open>_strip_diacritics\<close>: NFKD, then drop the combining characters. ASCII text is its
      own NFKD form and has no combining character.\<close>
  "strip_diacritics text = text"

definition normalize_string :: "string \<Rightarrow> string" where
  "normalize_string v0 =
     (let v1 = strip_diacritics v0;
          v2 = lower v1;
          v3 = replace_char CHR ''&'' '' and '' v2;
          v4 = feat_sub 0 None v3;
          v5 = parens_loop v4;
          v6 = map (\<lambda>c. if is_opener c \<or> is_closer c then CHR '' '' else c) v5;
          v7 = map (\<lambda>c. if is_word_char c \<or> is_space_char c then c else CHR '' '') v6;
          v8 = replace_char CHR ''_'' '' '' v7
      in strip (multispace_sub False v8))"

definition strip_leading_articles :: "string \<Rightarrow> string" where
  "strip_leading_articles name = (if take 4 name = ''the '' then drop 4 name else name)"

definition normalize_artists_joined :: "string list \<Rightarrow> string" where
  "normalize_artists_joined artists =
     (let normalized = sort (map (\<lambda>a. strip_leading_articles (normalize_string a))
                               (filter (\<lambda>a. a \<noteq> []) artists))
      in join '' '' (filter (\<lambda>n. n \<noteq> []) normalized))"

definition py_round_div :: "int \<Rightarrow> int \<Rightarrow> int" where
  \<comment> \<open>\<^verbatim>\<open>int(round(a / b))\<close> for \<open>0 \<le> a\<close> and \<open>1 \<le> b\<close>: the nearest integer, a tie going
      to the even one. The quotient is taken exactly; Python rounds it to a double first.\<close>
  "py_round_div a b =
     (let q = a div b; r = a mod b
      in if 2 * r < b then q
         else if b < 2 * r then q + 1
         else if even q then q else q + 1)"

definition round_duration_ms :: "int \<Rightarrow> int \<Rightarrow> int" where
  "round_duration_ms duration_ms tolerance_ms =
     (if duration_ms < 0 then 0
      else let bucket = max 1 tolerance_ms in py_round_div duration_ms bucket * bucket)"

fun show_nat :: "nat \<Rightarrow> string" where
  \<comment> \<open>The decimal digits of a natural number.\<close>
  "show_nat n =
     (if n < 10 then [''0123456789'' ! n]
      else show_nat (n div 10) @ [''0123456789'' ! (n mod 10)])"

declare show_nat.simps [simp del]

definition show_int :: "int \<Rightarrow> string" where
  \<comment> \<open>\<^verbatim>\<open>str(i)\<close> for an integer.\<close>
  "show_int i = (if i < 0 then CHR ''-'' # show_nat (nat (- i)) else show_nat (nat i))"

subsection \<open>Entities (\<^verbatim>\<open>app/domain/entities.py\<close>)\<close>

record track =
  t_id :: "string option"
  t_source_id :: string
  t_title :: string
  t_artists :: "string list"
  t_duration_ms :: int
  t_isrc :: "string option"
  t_album :: "string option"
  t_uri :: "string option"

record playlist =
  p_id :: string
  p_name :: string
  p_owner_id :: string
  p_is_owned :: bool
  p_track_count :: int

record candidate =
  c_uri :: string
  c_confidence :: real
  c_reason :: string
  c_title :: "string option"
  c_artists :: "string list option"
  c_album :: "string option"
  c_duration_ms :: "int option"
  c_rank :: "int option"
  c_album_type :: "string option"

record add_result =
  added :: nat
  duplicates :: nat
  errors :: nat

definition truthy :: "string option \<Rightarrow> bool" where
  \<comment> \<open>Python's truth value of an \<^verbatim>\<open>Optional[str]\<close>: neither \<^verbatim>\<open>None\<close> nor empty.\<close>
  "truthy x \<longleftrightarrow> (case x of None \<Rightarrow> False | Some s \<Rightarrow> s \<noteq> [])"

definition or_empty :: "string option \<Rightarrow> string" where
  \<comment> \<open>\<^verbatim>\<open>x or ""\<close>.\<close>
  "or_empty x = (case x of None \<Rightarrow> [] | Some s \<Rightarrow> s)"

definition build_track_key :: "track \<Rightarrow> int \<Rightarrow> string" where
  "build_track_key tr tolerance_ms =
     (if truthy (t_isrc tr) then ''isrc:'' @ or_empty (t_isrc tr)
      else let title_n = normalize_string (t_title tr);
               artists_n = normalize_artists_joined (t_artists tr);
               dur_r = round_duration_ms (t_duration_ms tr) tolerance_ms
           in ''meta:'' @ title_n @ ''::'' @ artists_n @ ''::'' @ show_int dur_r)"

subsection \<open>Idempotency (\<^verbatim>\<open>app/application/idempotency.py\<close>)\<close>

definition calculate_snapshot_hash :: "(string \<Rightarrow> string) \<Rightarrow> track list \<Rightarrow> string" where
  \<comment> \<open>The first argument is \<^verbatim>\<open>hashlib.sha256(bytes).hexdigest()\<close>, a library function;
      \<^verbatim>\<open>build_track_key\<close> is called with its default tolerance of 2000 ms.\<close>
  "calculate_snapshot_hash sha256_hexdigest tracks =
     (if tracks = [] then sha256_hexdigest ''empty_snapshot''
      else let track_keys = sort (map (\<lambda>tr. build_track_key tr 2000) tracks);
               snapshot_str = join [CHR 0x0A] track_keys
           in sha256_hexdigest snapshot_str)"

subsection \<open>Matching (\<^verbatim>\<open>app/application/matching.py\<close>)\<close>

record match_result =
  m_uri :: "string option"
  m_confidence :: real
  m_reason :: string

record track_matcher =
  exact_threshold :: real
  fuzzy_threshold :: real
  ambiguous_threshold :: real
  allow_ambiguous_best :: bool

definition default_matcher :: track_matcher where
  \<comment> \<open>The defaults of \<^verbatim>\<open>TrackMatcher.__init__\<close>.\<close>
  "default_matcher =
     \<lparr>exact_threshold = 0.95, fuzzy_threshold = 0.85, ambiguous_threshold = 0.05,
      allow_ambiguous_best = False\<rparr>"

definition not_found_result :: match_result where
  "not_found_result = \<lparr>m_uri = None, m_confidence = 0, m_reason = ''not_found''\<rparr>"

definition tail_tokens :: "string set" where
  "tail_tokens = {''vol'', ''pt'', ''remaster'', ''remastered'', ''live'', ''edit''}"

definition tokenize_artist_names :: "string list \<Rightarrow> string set" where
  \<comment> \<open>\<^verbatim>\<open>_tokenize_artist_names\<close>.\<close>
  "tokenize_artist_names artists =
     (if artists = [] then {}
      else let normalized = normalize_artists_joined artists;
               tokens = split normalized
           in set (filter (\<lambda>tok. tok \<noteq> [] \<and> \<not> isdigit tok \<and> tok \<notin> tail_tokens) tokens))"

definition artist_overlap_ok :: "string set \<Rightarrow> string list option \<Rightarrow> bool" where
  \<comment> \<open>The closure \<^verbatim>\<open>artist_overlap_ok\<close>; its first argument is \<^verbatim>\<open>source_artist_tokens\<close>.\<close>
  "artist_overlap_ok source_artist_tokens candidate_artists =
     (let cand_tokens =
            tokenize_artist_names (case candidate_artists of None \<Rightarrow> [] | Some a \<Rightarrow> a)
      in if source_artist_tokens \<noteq> {} then source_artist_tokens \<inter> cand_tokens \<noteq> {}
         else cand_tokens \<noteq> {})"

definition normalize_album :: "string option \<Rightarrow> string" where
  "normalize_album a = normalize_string (or_empty a)"

definition rank_key :: "candidate \<Rightarrow> int" where
  \<comment> \<open>\<^verbatim>\<open>rank if isinstance(rank, int) else 10**9\<close>.\<close>
  "rank_key c = (case c_rank c of Some r \<Rightarrow> r | None \<Rightarrow> 10 ^ 9)"

definition metadata_select :: "track \<Rightarrow> candidate list \<Rightarrow> candidate option" where
  \<comment> \<open>The metadata rules of \<^verbatim>\<open>find_best_match\<close>; \<open>None\<close> is \<^verbatim>\<open>selected is None\<close>. Every
      \<^verbatim>\<open>Candidate\<close> has the attributes \<^verbatim>\<open>title\<close> and \<^verbatim>\<open>artists\<close>, so \<^verbatim>\<open>meta_candidates\<close>
      is the whole list. Python's \<^verbatim>\<open>sorted\<close> is stable, as \<^const>\<open>sort_key\<close> is.\<close>
  "metadata_select source_track candidates =
     (let source_title_n = normalize_string (t_title source_track);
          source_artist_tokens = tokenize_artist_names (t_artists source_track);
          meta_candidates = candidates
      in if meta_candidates \<noteq> [] \<and> t_title source_track \<noteq> [] \<and> t_artists source_track \<noteq> []
         then
           let full_text =
                 filter (\<lambda>c. normalize_string (or_empty (c_title c)) = source_title_n
                              \<and> artist_overlap_ok source_artist_tokens (c_artists c))
                   meta_candidates;
               pool =
                 (if full_text \<noteq> [] then full_text
                  else filter (\<lambda>c. artist_overlap_ok source_artist_tokens (c_artists c))
                         meta_candidates)
           in if pool \<noteq> [] then
                let pool2 =
                      (if truthy (t_album source_track) then
                         let src_album_n = normalize_album (t_album source_track);
                             album_matched =
                               filter (\<lambda>c. normalize_album (c_album c) = src_album_n) pool
                         in if album_matched \<noteq> [] then album_matched else pool
                       else pool);
                    pool_sorted = sort_key (\<lambda>c. (rank_key c, - c_confidence c)) pool2
                in (case pool_sorted of [] \<Rightarrow> None | sel # _ \<Rightarrow> Some sel)
              else None
         else None)"

definition select_candidate :: "track \<Rightarrow> candidate \<Rightarrow> candidate list \<Rightarrow> candidate" where
  \<comment> \<open>The candidate selected from the non-empty list \<open>c # cs\<close>: by the metadata rules, else
      the first of the candidates sorted by confidence, highest first (a stable sort).\<close>
  "select_candidate source_track c cs =
     (case metadata_select source_track (c # cs) of
        Some sel \<Rightarrow> sel
      | None \<Rightarrow>
          (case sort_key (\<lambda>x. - c_confidence x) (c # cs) of
             [] \<Rightarrow> c
           | sel # _ \<Rightarrow> sel))"

definition risk_mode_of :: "string option \<Rightarrow> string" where
  \<comment> \<open>\<^verbatim>\<open>os.getenv('MUSYNC_RISK_MODE', 'strict').lower()\<close>; the argument is the variable.\<close>
  "risk_mode_of env_value = lower (case env_value of None \<Rightarrow> ''strict'' | Some v \<Rightarrow> v)"

definition min_conf_of :: "track_matcher \<Rightarrow> string \<Rightarrow> real" where
  "min_conf_of self risk_mode =
     (if risk_mode = ''strict'' then fuzzy_threshold self
      else if risk_mode = ''balanced'' then 0.80
      else 0.0)"

fun find_best_match ::
  "track_matcher \<Rightarrow> string option \<Rightarrow> track \<Rightarrow> candidate list \<Rightarrow> match_result" where
  \<comment> \<open>The second argument is the environment variable \<^verbatim>\<open>MUSYNC_RISK_MODE\<close>.\<close>
  "find_best_match self env_value source_track [] = not_found_result"
| "find_best_match self env_value source_track (c # cs) =
     (let selected = select_candidate source_track c cs;
          risk_mode = risk_mode_of env_value;
          min_conf = min_conf_of self risk_mode
      in if c_confidence selected < min_conf then not_found_result
         else \<lparr>m_uri = Some (c_uri selected), m_confidence = c_confidence selected,
               m_reason = c_reason selected\<rparr>)"

subsection \<open>Errors (\<^verbatim>\<open>app/domain/errors.py\<close>) and results\<close>

datatype exn =
    RateLimited int \<comment> \<open>\<^verbatim>\<open>retry_after_ms\<close>\<close>
  | TemporaryFailure
  | PermanentFailure
  | NotFound
  | ValueError
  | OtherException

datatype 'a outcome =
    Returned 'a
  | Raised exn
  | OutOfFuel \<comment> \<open>the retry loop was still running when the fuel ran out\<close>

definition false_match_step ::
  "match_result \<times> string option \<Rightarrow> nat \<times> nat \<Rightarrow> nat \<times> nat" where
  \<comment> \<open>The body of the loop of \<^verbatim>\<open>calculate_false_match_rate\<close> on
      \<open>(false_matches, total_matches)\<close>.\<close>
  "false_match_step re acc =
     (case re of (result, expected_uri) \<Rightarrow>
        (case acc of (false_matches, total_matches) \<Rightarrow>
           if m_uri result \<noteq> None then
             (if expected_uri \<noteq> None \<and> m_uri result \<noteq> expected_uri
              then (false_matches + 1, total_matches + 1)
              else (false_matches, total_matches + 1))
           else (false_matches, total_matches)))"

definition calculate_false_match_rate ::
  "match_result list \<Rightarrow> string option list \<Rightarrow> exn + real" where
  \<comment> \<open>The quotient is exact here; Python returns the double nearest to it.\<close>
  "calculate_false_match_rate results expected_uris =
     (if length results \<noteq> length expected_uris then Inl ValueError
      else if results = [] then Inr 0
      else
        (case fold false_match_step (zip results expected_uris) (0, 0) of
           (false_matches, total_matches) \<Rightarrow>
             if total_matches = 0 then Inr 0
             else Inr (real false_matches / real total_matches)))"

subsection \<open>The transfer pipeline (\<^verbatim>\<open>app/application/pipeline.py\<close>)\<close>

text \<open>
  The collaborators are parameters. A provider call either returns or raises, so it yields
  a value of \<^typ>\<open>exn + 'a\<close>. What \<^verbatim>\<open>add_tracks_batch\<close> answers may depend on the calls
  made to it before (a provider that is rate limited once and then accepts the batch), so
  it receives the log of these calls. The effects of a run are recorded in a
  \<open>world\<close>: the checkpoint files, the calls of \<^verbatim>\<open>save_checkpoint\<close>, the calls of
  \<^verbatim>\<open>add_tracks_batch\<close> with their outcomes, and the arguments of \<^verbatim>\<open>time.sleep\<close>.
  Time stamps (\<^verbatim>\<open>updatedAt\<close>, \<^verbatim>\<open>duration_ms\<close>), logging and the progress tracker have no
  influence on the other results and are left out; writing a checkpoint file is taken
  to succeed.
\<close>

record transfer_result =
  r_playlist_id :: string
  r_playlist_name :: string
  total_tracks :: nat
  matched_tracks :: nat
  not_found_tracks :: nat
  ambiguous_tracks :: nat
  added_tracks :: nat
  duplicate_tracks :: nat
  failed_tracks :: nat
  r_errors :: "(nat \<times> exn) list" \<comment> \<open>batch index and exception of each failed batch\<close>

record checkpoint =
  jobId :: string
  snapshotHash :: "string option"
  playlistId :: string
  batchIndex :: nat
  stage :: string
  trackIndex :: nat \<comment> \<open>\<^verbatim>\<open>cursor.trackIndex\<close>\<close>
  batchTrackIndex :: nat \<comment> \<open>\<^verbatim>\<open>cursor.batchTrackIndex\<close>\<close>
  addedUris :: "string list"
  attempts :: nat
  totalTracks :: nat \<comment> \<open>\<^verbatim>\<open>metadata.totalTracks\<close>\<close>
  processedTracks :: nat \<comment> \<open>\<^verbatim>\<open>metadata.processedTracks\<close>\<close>
  batchSize :: int \<comment> \<open>\<^verbatim>\<open>metadata.batchSize\<close>\<close>

type_synonym add_call = "string \<times> string list \<times> (exn + add_result)"

record world =
  store :: "string \<rightharpoonup> checkpoint" \<comment> \<open>the checkpoint files, by file name\<close>
  saves :: "(string \<times> checkpoint) list" \<comment> \<open>the calls of \<^verbatim>\<open>save_checkpoint\<close>\<close>
  add_calls :: "add_call list" \<comment> \<open>the calls of \<^verbatim>\<open>add_tracks_batch\<close>, with their outcomes\<close>
  sleeps :: "real list" \<comment> \<open>the arguments of \<^verbatim>\<open>time.sleep\<close>, in seconds\<close>

record pipeline =
  list_tracks :: "string \<Rightarrow> exn + track list" \<comment> \<open>of the source provider\<close>
  resolve_or_create_playlist :: "string \<Rightarrow> exn + playlist"
  find_track_candidates :: "track \<Rightarrow> exn + candidate list" \<comment> \<open>with \<^verbatim>\<open>top_k=3\<close>\<close>
  add_tracks_batch :: "add_call list \<Rightarrow> string \<Rightarrow> string list \<Rightarrow> exn + add_result"
  matcher :: "track \<Rightarrow> candidate list \<Rightarrow> exn + match_result"
  batch_size :: int
  max_retries :: int

definition get_checkpoint_path :: "string \<Rightarrow> string \<Rightarrow> string" where
  "get_checkpoint_path job_id playlist_id = job_id @ ''_'' @ playlist_id @ ''.json''"

definition save_checkpoint :: "string \<Rightarrow> string \<Rightarrow> checkpoint \<Rightarrow> world \<Rightarrow> world" where
  "save_checkpoint job_id playlist_id checkpoint_data w =
     (let path = get_checkpoint_path job_id playlist_id
      in w\<lparr>store := (store w)(path \<mapsto> checkpoint_data),
           saves := saves w @ [(path, checkpoint_data)]\<rparr>)"

definition load_checkpoint :: "string \<Rightarrow> string \<Rightarrow> world \<Rightarrow> checkpoint option" where
  "load_checkpoint job_id playlist_id w = store w (get_checkpoint_path job_id playlist_id)"

definition split_into_batches :: "int \<Rightarrow> 'a list \<Rightarrow> exn + 'a list list" where
  \<comment> \<open>\<^verbatim>\<open>track_uris[i:i + batch_size] for i in range(0, len(track_uris), batch_size)\<close>; a step
      of zero makes \<^verbatim>\<open>range\<close> raise, a negative step makes it empty.\<close>
  "split_into_batches bs track_uris =
     (if bs = 0 then Inl ValueError
      else if bs < 0 then Inr []
      else Inr (map (\<lambda>k. take (nat bs) (drop (k * nat bs) track_uris))
                  [0 ..< (length track_uris + nat bs - 1) div nat bs]))"

fun process_loop ::
  "pipeline \<Rightarrow> string \<Rightarrow> string list \<Rightarrow> nat \<Rightarrow> int \<Rightarrow> world \<Rightarrow> add_result outcome \<times> world"
  where
  \<comment> \<open>The \<^verbatim>\<open>while attempt <= self.max_retries\<close> loop of \<^verbatim>\<open>process_batch\<close>; the fuel bounds
      the number of iterations, the integer is \<^verbatim>\<open>attempt\<close>. \<^verbatim>\<open>time.sleep\<close> raises
      \<^verbatim>\<open>ValueError\<close> on a negative argument.\<close>
  "process_loop pl playlist_id track_uris 0 attempt w =
     (if attempt \<le> max_retries pl then (OutOfFuel, w) else (Raised TemporaryFailure, w))"
| "process_loop pl playlist_id track_uris (Suc fuel) attempt w =
     (if attempt \<le> max_retries pl then
        (let r = add_tracks_batch pl (add_calls w) playlist_id track_uris;
             w1 = w\<lparr>add_calls := add_calls w @ [(playlist_id, track_uris, r)]\<rparr>
         in case r of
              Inr result \<Rightarrow> (Returned result, w1)
            | Inl (RateLimited retry_after_ms) \<Rightarrow>
                (let w2 = w1\<lparr>sleeps := sleeps w1 @ [real_of_int retry_after_ms / 1000]\<rparr>
                 in if retry_after_ms < 0 then (Raised ValueError, w2)
                    else process_loop pl playlist_id track_uris fuel attempt w2)
            | Inl e \<Rightarrow>
                (let attempt1 = attempt + 1
                 in if attempt1 > max_retries pl then (Raised TemporaryFailure, w1)
                    else
                      (let backoff_time = (2::real) ^ nat (attempt1 - 1);
                           w2 = w1\<lparr>sleeps := sleeps w1 @ [backoff_time]\<rparr>
                       in process_loop pl playlist_id track_uris fuel attempt1 w2)))
      else (Raised TemporaryFailure, w))"

definition process_batch ::
  "pipeline \<Rightarrow> string \<Rightarrow> string list \<Rightarrow> string \<Rightarrow> nat \<Rightarrow> bool \<Rightarrow> nat \<Rightarrow> world
     \<Rightarrow> add_result outcome \<times> world" where
  \<comment> \<open>\<^verbatim>\<open>process_batch(playlist_id, track_uris, job_id, batch_index, dry_run)\<close>, with the
      fuel of its loop and the world.\<close>
  "process_batch pl playlist_id track_uris job_id batch_index dry_run fuel w =
     (if dry_run then (Returned \<lparr>added = length track_uris, duplicates = 0, errors = 0\<rparr>, w)
      else process_loop pl playlist_id track_uris fuel 0 w)"

record batch_totals =
  checkpoint_data :: checkpoint
  total_added :: nat
  total_duplicates :: nat
  total_errors :: nat
  batch_errors :: "(nat \<times> exn) list"

fun process_batches ::
  "pipeline \<Rightarrow> string \<Rightarrow> string \<Rightarrow> string \<Rightarrow> bool \<Rightarrow> nat \<Rightarrow> nat \<Rightarrow> string list list
     \<Rightarrow> batch_totals \<Rightarrow> world \<Rightarrow> batch_totals outcome \<times> world" where
  \<comment> \<open>The loop \<^verbatim>\<open>for batch_index, batch_uris in enumerate(batches)\<close> of
      \<^verbatim>\<open>_process_matched_tracks\<close>. An exception of \<^verbatim>\<open>process_batch\<close> is caught and counted;
      a retry loop that does not end does not let the transfer end.\<close>
  "process_batches pl target_id job_id source_playlist_id dry_run fuel batch_index [] acc w =
     (Returned acc, w)"
| "process_batches pl target_id job_id source_playlist_id dry_run fuel batch_index
     (batch_uris # rest) acc w =
     (let cp1 = (if \<not> dry_run then (checkpoint_data acc)\<lparr>batchIndex := batch_index\<rparr>
                 else checkpoint_data acc);
          w1 = (if \<not> dry_run then save_checkpoint job_id source_playlist_id cp1 w else w)
      in case process_batch pl target_id batch_uris job_id batch_index dry_run fuel w1 of
           (OutOfFuel, w2) \<Rightarrow> (OutOfFuel, w2)
         | (Returned batch_result, w2) \<Rightarrow>
             process_batches pl target_id job_id source_playlist_id dry_run fuel
               (Suc batch_index) rest
               (acc\<lparr>checkpoint_data :=
                       (if \<not> dry_run
                        then cp1\<lparr>addedUris := addedUris cp1 @ take (added batch_result) batch_uris\<rparr>
                        else cp1),
                     total_added := total_added acc + added batch_result,
                     total_duplicates := total_duplicates acc + duplicates batch_result,
                     total_errors := total_errors acc + errors batch_result\<rparr>)
               w2
         | (Raised e, w2) \<Rightarrow>
             process_batches pl target_id job_id source_playlist_id dry_run fuel
               (Suc batch_index) rest
               (acc\<lparr>checkpoint_data := cp1,
                     batch_errors := batch_errors acc @ [(batch_index, e)],
                     total_errors := total_errors acc + length batch_uris\<rparr>)
               w2)"

definition process_matched_tracks ::
  "pipeline \<Rightarrow> playlist \<Rightarrow> string list \<Rightarrow> match_result list \<Rightarrow> string \<Rightarrow> string \<Rightarrow> checkpoint
     \<Rightarrow> bool \<Rightarrow> nat \<Rightarrow> nat option \<Rightarrow> nat \<Rightarrow> world \<Rightarrow> transfer_result outcome \<times> world" where
  \<comment> \<open>\<^verbatim>\<open>_process_matched_tracks\<close>; \<^verbatim>\<open>split_into_batches\<close> is called outside the \<^verbatim>\<open>try\<close>.\<close>
  "process_matched_tracks pl target_playlist matched_uris match_results job_id
     source_playlist_id cp dry_run already_added_count total_tracks_opt fuel w =
     (let cp1 = (if \<not> dry_run then cp\<lparr>stage := ''writing''\<rparr> else cp);
          w1 = (if \<not> dry_run then save_checkpoint job_id source_playlist_id cp1 w else w)
      in case split_into_batches (batch_size pl) matched_uris of
           Inl e \<Rightarrow> (Raised e, w1)
         | Inr batches \<Rightarrow>
             (case process_batches pl (p_id target_playlist) job_id source_playlist_id
                     dry_run fuel 0 batches
                     \<lparr>checkpoint_data = cp1, total_added = 0, total_duplicates = 0,
                      total_errors = 0, batch_errors = []\<rparr> w1 of
                (OutOfFuel, w2) \<Rightarrow> (OutOfFuel, w2)
              | (Raised e, w2) \<Rightarrow> (Raised e, w2)
              | (Returned acc, w2) \<Rightarrow>
                  (let total = (case total_tracks_opt of None \<Rightarrow> length match_results
                                | Some n \<Rightarrow> n);
                       matched = length (filter (\<lambda>r. m_uri r \<noteq> None) match_results);
                       not_found =
                         length (filter (\<lambda>r. m_reason r = ''not_found'') match_results);
                       ambiguous =
                         length (filter (\<lambda>r. m_reason r = ''ambiguous'') match_results);
                       w3 = (if \<not> dry_run
                             then save_checkpoint job_id source_playlist_id
                                    ((checkpoint_data acc)\<lparr>stage := ''completed''\<rparr>) w2
                             else w2)
                   in (Returned
                         \<lparr>r_playlist_id = p_id target_playlist,
                          r_playlist_name = p_name target_playlist,
                          total_tracks = total,
                          matched_tracks = matched,
                          not_found_tracks = not_found,
                          ambiguous_tracks = ambiguous,
                          added_tracks =
                            (if dry_run then 0 else total_added acc + already_added_count),
                          duplicate_tracks = total_duplicates acc,
                          failed_tracks = total_errors acc,
                          r_errors = batch_errors acc\<rparr>, w3))))"

definition error_result :: match_result where
  "error_result = \<lparr>m_uri = None, m_confidence = 0, m_reason = ''error''\<rparr>"

definition dummy_result :: match_result where
  \<comment> \<open>\<^verbatim>\<open>Mock(uri="dummy", confidence=1.0, reason="already_processed")\<close>.\<close>
  "dummy_result = \<lparr>m_uri = Some ''dummy'', m_confidence = 1, m_reason = ''already_processed''\<rparr>"

fun fresh_match_loop ::
  "pipeline \<Rightarrow> string \<Rightarrow> string \<Rightarrow> bool \<Rightarrow> nat \<Rightarrow> track list \<Rightarrow> string list
     \<Rightarrow> match_result list \<Rightarrow> checkpoint \<Rightarrow> world
     \<Rightarrow> string list \<times> match_result list \<times> checkpoint \<times> world" where
  \<comment> \<open>The loop \<^verbatim>\<open>for i, track in enumerate(source_tracks)\<close> of \<^verbatim>\<open>_start_fresh_transfer\<close>,
      with \<^verbatim>\<open>matched_uris\<close>, \<^verbatim>\<open>match_results\<close> and \<^verbatim>\<open>checkpoint_data\<close>; its body is a
      \<^verbatim>\<open>try\<close> whose handler appends a failed result.\<close>
  "fresh_match_loop pl job_id source_playlist_id dry_run i [] matched_uris match_results cp w =
     (matched_uris, match_results, cp, w)"
| "fresh_match_loop pl job_id source_playlist_id dry_run i (tr # rest) matched_uris
     match_results cp w =
     (case find_track_candidates pl tr of
        Inl e \<Rightarrow>
          fresh_match_loop pl job_id source_playlist_id dry_run (Suc i) rest matched_uris
            (match_results @ [error_result]) cp w
      | Inr candidates \<Rightarrow>
          (case matcher pl tr candidates of
             Inl e \<Rightarrow>
               fresh_match_loop pl job_id source_playlist_id dry_run (Suc i) rest matched_uris
                 (match_results @ [error_result]) cp w
           | Inr match_res \<Rightarrow>
               (let matched_uris1 =
                      (if truthy (m_uri match_res) then matched_uris @ [or_empty (m_uri match_res)]
                       else matched_uris);
                    periodic = ((i + 1) mod 10 = 0 \<and> \<not> dry_run);
                    cp1 = (if periodic then cp\<lparr>trackIndex := i + 1, processedTracks := i + 1\<rparr>
                           else cp);
                    w1 = (if periodic then save_checkpoint job_id source_playlist_id cp1 w
                          else w)
                in fresh_match_loop pl job_id source_playlist_id dry_run (Suc i) rest
                     matched_uris1 (match_results @ [match_res]) cp1 w1)))"

fun resume_match_loop ::
  "pipeline \<Rightarrow> string list \<Rightarrow> track list \<Rightarrow> string list \<Rightarrow> match_result list
     \<Rightarrow> exn + string list \<times> match_result list" where
  \<comment> \<open>The loop \<^verbatim>\<open>for i, track in enumerate(remaining_tracks)\<close> of
      \<^verbatim>\<open>_resume_from_checkpoint\<close>, with \<^verbatim>\<open>new_matched_uris\<close> and \<^verbatim>\<open>match_results\<close>; it has
      no \<^verbatim>\<open>try\<close>.\<close>
  "resume_match_loop pl already_added_uris [] new_matched_uris match_results =
     Inr (new_matched_uris, match_results)"
| "resume_match_loop pl already_added_uris (tr # rest) new_matched_uris match_results =
     (case find_track_candidates pl tr of
        Inl e \<Rightarrow> Inl e
      | Inr candidates \<Rightarrow>
          (case matcher pl tr candidates of
             Inl e \<Rightarrow> Inl e
           | Inr match_res \<Rightarrow>
               resume_match_loop pl already_added_uris rest
                 (if truthy (m_uri match_res)
                     \<and> or_empty (m_uri match_res) \<notin> set already_added_uris
                  then new_matched_uris @ [or_empty (m_uri match_res)]
                  else new_matched_uris)
                 (match_results @ [match_res])))"

definition initial_checkpoint :: "pipeline \<Rightarrow> string \<Rightarrow> string option \<Rightarrow> string \<Rightarrow> checkpoint"
  where
  "initial_checkpoint pl job_id snapshot_hash playlist_id =
     \<lparr>jobId = job_id, snapshotHash = snapshot_hash, playlistId = playlist_id, batchIndex = 0,
      stage = ''scanning'', trackIndex = 0, batchTrackIndex = 0, addedUris = [], attempts = 0,
      totalTracks = 0, processedTracks = 0, batchSize = batch_size pl\<rparr>"

definition start_fresh_transfer ::
  "pipeline \<Rightarrow> playlist \<Rightarrow> string \<Rightarrow> string option \<Rightarrow> bool \<Rightarrow> nat \<Rightarrow> world
     \<Rightarrow> transfer_result outcome \<times> world" where
  "start_fresh_transfer pl source_playlist job_id snapshot_hash dry_run fuel w =
     (let cp0 = initial_checkpoint pl job_id snapshot_hash (p_id source_playlist);
          w0 = (if \<not> dry_run then save_checkpoint job_id (p_id source_playlist) cp0 w else w)
      in case list_tracks pl (p_id source_playlist) of
           Inl e \<Rightarrow> (Raised e, w0)
         | Inr source_tracks \<Rightarrow>
             (let cp1 = cp0\<lparr>totalTracks := length source_tracks, stage := ''matching''\<rparr>;
                  w1 = (if \<not> dry_run
                        then save_checkpoint job_id (p_id source_playlist) cp1 w0 else w0)
              in case resolve_or_create_playlist pl (p_name source_playlist) of
                   Inl e \<Rightarrow> (Raised e, w1)
                 | Inr target_playlist \<Rightarrow>
                     (case fresh_match_loop pl job_id (p_id source_playlist) dry_run 0
                             source_tracks [] [] cp1 w1 of
                        (matched_uris, match_results, cp2, w2) \<Rightarrow>
                          process_matched_tracks pl target_playlist matched_uris match_results
                            job_id (p_id source_playlist) cp2 dry_run 0
                            (Some (length source_tracks)) fuel w2)))"

definition resume_from_checkpoint ::
  "pipeline \<Rightarrow> playlist \<Rightarrow> string \<Rightarrow> checkpoint \<Rightarrow> bool \<Rightarrow> nat \<Rightarrow> world
     \<Rightarrow> transfer_result outcome \<times> world" where
  "resume_from_checkpoint pl source_playlist job_id cp dry_run fuel w =
     (case list_tracks pl (p_id source_playlist) of
        Inl e \<Rightarrow> (Raised e, w)
      | Inr source_tracks \<Rightarrow>
          (case resolve_or_create_playlist pl (p_name source_playlist) of
             Inl e \<Rightarrow> (Raised e, w)
           | Inr target_playlist \<Rightarrow>
               (let already_added_uris = addedUris cp;
                    start_index = trackIndex cp;
                    remaining_tracks = drop start_index source_tracks
                in case resume_match_loop pl already_added_uris remaining_tracks [] [] of
                     Inl e \<Rightarrow> (Raised e, w)
                   | Inr (new_matched_uris, match_results) \<Rightarrow>
                       (let already_processed_count = length already_added_uris;
                            dummy_match_results = replicate already_processed_count dummy_result
                        in process_matched_tracks pl target_playlist new_matched_uris
                             (match_results @ dummy_match_results) job_id
                             (p_id source_playlist) cp dry_run (length already_added_uris)
                             (Some (length source_tracks)) fuel w))))"

definition transfer_playlist ::
  "pipeline \<Rightarrow> playlist \<Rightarrow> string \<Rightarrow> string option \<Rightarrow> bool \<Rightarrow> nat \<Rightarrow> world
     \<Rightarrow> transfer_result outcome \<times> world" where
  \<comment> \<open>\<^verbatim>\<open>transfer_playlist(source_playlist, job_id, snapshot_hash, dry_run)\<close>, with the fuel
      given to each retry loop and the world before the call.\<close>
  "transfer_playlist pl source_playlist job_id snapshot_hash dry_run fuel w =
     (case load_checkpoint job_id (p_id source_playlist) w of
        Some cp \<Rightarrow> resume_from_checkpoint pl source_playlist job_id cp dry_run fuel w
      | None \<Rightarrow> start_fresh_transfer pl source_playlist job_id snapshot_hash dry_run fuel w)"

subsection \<open>Concrete inputs\<close>

definition bohemian :: track where
  "bohemian = \<lparr>t_id = None, t_source_id = ''y1'', t_title = ''Bohemian Rhapsody'',
     t_artists = [''Queen''], t_duration_ms = 354000, t_isrc = Some ''GBUM71029601'',
     t_album = None, t_uri = None\<rparr>"

definition song :: "string \<Rightarrow> string option \<Rightarrow> track" where
  "song ttl code = \<lparr>t_id = None, t_source_id = ''y2'', t_title = ttl, t_artists = [''A''],
     t_duration_ms = 2010, t_isrc = code, t_album = None, t_uri = None\<rparr>"

definition bare_candidate :: "string \<Rightarrow> real \<Rightarrow> string \<Rightarrow> candidate" where
  \<comment> \<open>\<^verbatim>\<open>Candidate(uri, confidence, reason)\<close>, the optional fields at their defaults.\<close>
  "bare_candidate u conf rsn = \<lparr>c_uri = u, c_confidence = conf, c_reason = rsn, c_title = None,
     c_artists = None, c_album = None, c_duration_ms = None, c_rank = None, c_album_type = None\<rparr>"

definition matched_as :: "string option \<Rightarrow> match_result" where
  "matched_as u = \<lparr>m_uri = u, m_confidence = 1, m_reason = ''exact_match''\<rparr>"

subsection \<open>Notions used to state the retry policy\<close>

definition log_call :: "string \<Rightarrow> string list \<Rightarrow> exn + add_result \<Rightarrow> world \<Rightarrow> world" where
  \<comment> \<open>The world after one more call of \<^verbatim>\<open>add_tracks_batch\<close> with outcome \<open>r\<close>.\<close>
  "log_call playlist_id uris r w = w\<lparr>add_calls := add_calls w @ [(playlist_id, uris, r)]\<rparr>"

definition log_sleep :: "real \<Rightarrow> world \<Rightarrow> world" where
  \<comment> \<open>The world after one more call of \<^verbatim>\<open>time.sleep\<close>.\<close>
  "log_sleep t w = w\<lparr>sleeps := sleeps w @ [t]\<rparr>"

fun is_rate_limited :: "exn \<Rightarrow> bool" where
  "is_rate_limited (RateLimited ms) = True"
| "is_rate_limited e = False"

fun wait_ok :: "exn \<Rightarrow> bool" where
  \<comment> \<open>The suggested wait of a rate limit is not negative.\<close>
  "wait_ok (RateLimited ms) = (0 \<le> ms)"
| "wait_ok e = True"

fun follows_script ::
  "pipeline \<Rightarrow> add_call list \<Rightarrow> string \<Rightarrow> string list \<Rightarrow> exn list \<Rightarrow> bool" where
  \<comment> \<open>Starting from the given log, the provider answers the next calls for this batch
      with the exceptions of the list, in order.\<close>
  "follows_script pl calls playlist_id uris [] = True"
| "follows_script pl calls playlist_id uris (e # es) =
     (add_tracks_batch pl calls playlist_id uris = Inl e
      \<and> follows_script pl (calls @ [(playlist_id, uris, Inl e)]) playlist_id uris es)"

fun expected_sleeps :: "nat \<Rightarrow> exn list \<Rightarrow> real list" where
  \<comment> \<open>The sleeps the policy of the specification prescribes for a sequence of exceptions,
      from a given attempt counter: the suggested wait for a rate limit, \<open>2 ^ a\<close> seconds
      for the failure that makes the counter \<open>a + 1\<close>.\<close>
  "expected_sleeps a [] = []"
| "expected_sleeps a (RateLimited ms # es) = real_of_int ms / 1000 # expected_sleeps a es"
| "expected_sleeps a (e # es) = 2 ^ a # expected_sleeps (Suc a) es"

definition failures :: "exn list \<Rightarrow> nat" where
  "failures es = length (filter (\<lambda>e. \<not> is_rate_limited e) es)"


subsection \<open>Concrete pipelines\<close>

definition target_playlist_1 :: playlist where
  "target_playlist_1 = \<lparr>p_id = ''target_playlist_1'', p_name = ''Test Playlist'',
     p_owner_id = ''target_user'', p_is_owned = True, p_track_count = 0\<rparr>"

definition once_limited :: pipeline where
  "once_limited =
     \<lparr>list_tracks = (\<lambda>_. Inr []),
      resolve_or_create_playlist = (\<lambda>_. Inr target_playlist_1),
      find_track_candidates = (\<lambda>_. Inr []),
      add_tracks_batch =
        (\<lambda>calls playlist_id uris.
           if calls = [] then Inl (RateLimited 1000)
           else Inr \<lparr>added = length uris, duplicates = 0, errors = 0\<rparr>),
      matcher = (\<lambda>tr cands. Inr (find_best_match default_matcher None tr cands)),
      batch_size = 100,
      max_retries = 3\<rparr>"

definition empty_world :: world where
  "empty_world = \<lparr>store = Map.empty, saves = [], add_calls = [], sleeps = []\<rparr>"

definition always_failing :: pipeline where
  "always_failing = once_limited\<lparr>add_tracks_batch := (\<lambda>calls playlist_id uris. Inl TemporaryFailure)\<rparr>"

definition two_uris :: "string list" where
  "two_uris = [''spotify:track:1'', ''spotify:track:2'']"

subsection \<open>Notions used to state the properties of a transfer\<close>

fun added_of :: "add_call \<Rightarrow> nat" where
  \<comment> \<open>What one call of \<^verbatim>\<open>add_tracks_batch\<close> added: the \<^verbatim>\<open>added\<close> of its result, nothing when
      it raised.\<close>
  "added_of (playlist_id, uris, Inr r) = added r"
| "added_of (playlist_id, uris, Inl e) = 0"

definition added_sum :: "add_call list \<Rightarrow> nat" where
  "added_sum calls = sum_list (map added_of calls)"

definition new_calls :: "world \<Rightarrow> world \<Rightarrow> add_call list" where
  \<comment> \<open>The calls of \<^verbatim>\<open>add_tracks_batch\<close> made between two worlds.\<close>
  "new_calls w w' = drop (length (add_calls w)) (add_calls w')"

definition returned_added :: "add_result outcome \<Rightarrow> nat" where
  "returned_added out = (case out of Returned r \<Rightarrow> added r | Raised e \<Rightarrow> 0 | OutOfFuel \<Rightarrow> 0)"

definition match_or_error :: "pipeline \<Rightarrow> track \<Rightarrow> match_result" where
  \<comment> \<open>The match result of one track: candidate lookup, then the matcher; an exception of
      either gives the \<^verbatim>\<open>error\<close> result.\<close>
  "match_or_error pl tr =
     (case find_track_candidates pl tr of
        Inl e \<Rightarrow> error_result
      | Inr candidates \<Rightarrow>
          (case matcher pl tr candidates of
             Inl e \<Rightarrow> error_result
           | Inr match_res \<Rightarrow> match_res))"

definition count_matched :: "match_result list \<Rightarrow> nat" where
  "count_matched rs = length (filter (\<lambda>r. m_uri r \<noteq> None) rs)"

definition count_not_found :: "match_result list \<Rightarrow> nat" where
  "count_not_found rs = length (filter (\<lambda>r. m_reason r = ''not_found'') rs)"

subsection \<open>A playlist of four tracks, with and without a checkpoint\<close>

definition test_track :: "string \<Rightarrow> track" where
  "test_track n = \<lparr>t_id = None, t_source_id = n, t_title = ''Song '' @ n,
     t_artists = [''Artist''], t_duration_ms = 180000, t_isrc = Some (''TEST00'' @ n),
     t_album = None, t_uri = None\<rparr>"

definition source_playlist_1 :: playlist where
  "source_playlist_1 = \<lparr>p_id = ''source_playlist_1'', p_name = ''Recovery Playlist'',
     p_owner_id = ''user_1'', p_is_owned = True, p_track_count = 0\<rparr>"

definition recovery_pipeline :: pipeline where
  "recovery_pipeline =
     \<lparr>list_tracks = (\<lambda>_. Inr [test_track ''1'', test_track ''2'', test_track ''3'', test_track ''4'']),
      resolve_or_create_playlist = (\<lambda>_. Inr target_playlist_1),
      find_track_candidates =
        (\<lambda>tr. Inr [bare_candidate (''spotify:track:'' @ t_source_id tr) 1.0 ''isrc_exact'']),
      add_tracks_batch =
        (\<lambda>calls playlist_id uris. Inr \<lparr>added = length uris, duplicates = 0, errors = 0\<rparr>),
      matcher = (\<lambda>tr cands. Inr (find_best_match default_matcher None tr cands)),
      batch_size = 100,
      max_retries = 3\<rparr>"

definition flaky_pipeline :: pipeline where
  "flaky_pipeline = recovery_pipeline
     \<lparr>find_track_candidates :=
        (\<lambda>tr. if t_source_id tr = ''3'' then Inl TemporaryFailure
              else Inr [bare_candidate (''spotify:track:'' @ t_source_id tr) 1.0 ''isrc_exact''])\<rparr>"

definition existing_checkpoint :: checkpoint where
  "existing_checkpoint =
     \<lparr>jobId = ''test_job_1'', snapshotHash = None, playlistId = ''source_playlist_1'',
      batchIndex = 1, stage = ''writing'', trackIndex = 1, batchTrackIndex = 0,
      addedUris = [''spotify:track:1'', ''spotify:track:2''], attempts = 0,
      totalTracks = 4, processedTracks = 0, batchSize = 100\<rparr>"

definition resumed_world :: world where
  "resumed_world = save_checkpoint ''test_job_1'' ''source_playlist_1'' existing_checkpoint empty_world"

definition four_tracks :: "track list" where
  "four_tracks = [test_track ''1'', test_track ''2'', test_track ''3'', test_track ''4'']"

definition completed_world :: world where
  \<comment> \<open>The world left by a complete transfer of the playlist, not a dry run.\<close>
  "completed_world =
     snd (transfer_playlist recovery_pipeline source_playlist_1 ''test_job_1'' None False 1 empty_world)"

subsection \<open>Notions used to state and prove the idempotence of \<^verbatim>\<open>normalize_string\<close>\<close>



function toks :: "string \<Rightarrow> string list" where
  \<comment> \<open>The tokens of a string: its maximal runs of word characters, in order.\<close>
  "toks s =
     (case dropWhile (\<lambda>c. \<not> is_word_char c) s of
        [] \<Rightarrow> []
      | c # r \<Rightarrow> (c # takeWhile is_word_char r) # toks (dropWhile is_word_char r))"
  by pat_completeness auto
termination
proof (relation "measure length")
  show "wf (measure length)" by simp
next
  fix s :: string and c r
  assume "dropWhile (\<lambda>c. \<not> is_word_char c) s = c # r"
  then have "length (c # r) \<le> length s"
    using length_dropWhile_le[of "\<lambda>c. \<not> is_word_char c" s] by simp
  moreover have "length (dropWhile is_word_char r) \<le> length r"
    by (rule length_dropWhile_le)
  ultimately show "(dropWhile is_word_char r, s) \<in> measure length" by simp
qed

declare toks.simps [simp del]






section \<open>Verified properties\<close>

subsection \<open>The snapshot hash\<close>

text \<open>
  Claim C1. \<^verbatim>\<open>calculate_snapshot_hash\<close> returns the same digest for a list of tracks and for
  every permutation of it (two lists with the same multiset of tracks), and for the empty
  list it returns the digest of the bytes \<^verbatim>\<open>empty_snapshot\<close>.
\<close>

theorem snapshot_hash_order_independent:
  "calculate_snapshot_hash sha256_hexdigest [] = sha256_hexdigest ''empty_snapshot'' \<and>
   (mset tracks = mset tracks' \<longrightarrow>
      calculate_snapshot_hash sha256_hexdigest tracks
        = calculate_snapshot_hash sha256_hexdigest tracks')"
proof (intro conjI impI)
  show "calculate_snapshot_hash sha256_hexdigest [] = sha256_hexdigest ''empty_snapshot''"
    by (simp add: calculate_snapshot_hash_def)
next
  assume m: "mset tracks = mset tracks'"
  then have "mset (map (\<lambda>tr. build_track_key tr 2000) tracks)
      = mset (map (\<lambda>tr. build_track_key tr 2000) tracks')"
    by (metis mset_map)
  then have "sort (map (\<lambda>tr. build_track_key tr 2000) tracks)
      = sort (map (\<lambda>tr. build_track_key tr 2000) tracks')"
    by (simp add: properties_for_sort)
  moreover have "tracks = [] \<longleftrightarrow> tracks' = []"
    using m by (metis mset_zero_iff)
  ultimately show "calculate_snapshot_hash sha256_hexdigest tracks
      = calculate_snapshot_hash sha256_hexdigest tracks'"
    by (simp add: calculate_snapshot_hash_def)
qed

theorem snapshot_hash_order_independent_witness:
  "mset [song ''Song'' None, song ''Other'' (Some ''USABC1234567'')]
     = mset [song ''Other'' (Some ''USABC1234567''), song ''Song'' None] \<and>
   calculate_snapshot_hash id [song ''Song'' None, song ''Other'' (Some ''USABC1234567'')]
     = calculate_snapshot_hash id [song ''Other'' (Some ''USABC1234567''), song ''Song'' None] \<and>
   calculate_snapshot_hash id [song ''Song'' None, song ''Other'' (Some ''USABC1234567'')]
     = ''isrc:USABC1234567'' @ [CHR 0x0A] @ ''meta:song::a::2000''"
proof -
  have m: "mset [song ''Song'' None, song ''Other'' (Some ''USABC1234567'')]
     = mset [song ''Other'' (Some ''USABC1234567''), song ''Song'' None]"
    by (simp add: add_mset_commute)
  have v: "calculate_snapshot_hash id [song ''Other'' (Some ''USABC1234567''), song ''Song'' None]
     = ''isrc:USABC1234567'' @ [CHR 0x0A] @ ''meta:song::a::2000''"
    by code_simp
  from snapshot_hash_order_independent[of id "[song ''Song'' None, song ''Other'' (Some ''USABC1234567'')]"
      "[song ''Other'' (Some ''USABC1234567''), song ''Song'' None]"] m v
  show ?thesis by simp
qed


subsection \<open>The matcher\<close>

lemma metadata_select_mem: "metadata_select tr cands = Some sel \<Longrightarrow> sel \<in> set cands"
proof -
  assume a: "metadata_select tr cands = Some sel"
  have hd_mem: "\<And>xs (f :: candidate \<Rightarrow> int \<times> real) P. (case sort_key f (filter P xs) of [] \<Rightarrow> None | s # _ \<Rightarrow> Some s) = Some sel \<Longrightarrow> sel \<in> set xs"
  proof -
    fix xs and f :: "candidate \<Rightarrow> int \<times> real" and P
    assume "(case sort_key f (filter P xs) of [] \<Rightarrow> None | s # _ \<Rightarrow> Some s) = Some sel"
    then obtain r where "sort_key f (filter P xs) = sel # r" by (auto split: list.splits)
    then have "sel \<in> set (sort_key f (filter P xs))" by simp
    then show "sel \<in> set xs" by simp
  qed
  show ?thesis using a
    unfolding metadata_select_def Let_def
    by (auto split: if_splits dest!: hd_mem simp: filter_filter simp del: set_filter)
qed

lemma select_candidate_mem: "select_candidate tr c cs \<in> set (c # cs)"
proof (cases "metadata_select tr (c # cs)")
  case (Some sel)
  then show ?thesis using metadata_select_mem[OF Some] by (simp add: select_candidate_def)
next
  case None
  show ?thesis
  proof (cases "sort_key (\<lambda>x. - c_confidence x) (c # cs)")
    case Nil
    then show ?thesis using None by (simp add: select_candidate_def)
  next
    case (Cons s r)
    then have "s \<in> set (sort_key (\<lambda>x. - c_confidence x) (c # cs))" by simp
    then have "s \<in> set (c # cs)" by (simp only: set_sort)
    then show ?thesis using None Cons by (simp add: select_candidate_def)
  qed
qed

lemma find_best_match_cases:
  "find_best_match self ev tr cands = not_found_result \<or>
   (\<exists>x \<in> set cands. find_best_match self ev tr cands =
      \<lparr>m_uri = Some (c_uri x), m_confidence = c_confidence x, m_reason = c_reason x\<rparr>)"
proof (cases cands)
  case Nil
  then show ?thesis by simp
next
  case (Cons c cs)
  then show ?thesis using select_candidate_mem[of tr c cs]
    by (auto simp: Let_def)
qed


text \<open>
  Claim C5, as stated: under a risk mode other than \<^verbatim>\<open>strict\<close> and \<^verbatim>\<open>balanced\<close> no
  confidence floor is applied and the selected candidate is returned. The code compares
  with the floor 0.0 there (\<^verbatim>\<open>min_conf = 0.0\<close>), and \<^verbatim>\<open>Candidate\<close> does not restrict its
  \<^verbatim>\<open>confidence\<close>: under \<^verbatim>\<open>aggressive\<close> a single candidate of confidence -0.1 is selected
  and turned into \<^verbatim>\<open>not_found\<close>.
\<close>

theorem risk_mode_floor_counterexample:
  "risk_mode_of (Some ''aggressive'') = ''aggressive'' \<and>
   select_candidate bohemian (bare_candidate ''X'' (- 0.1) ''fuzzy_match'') []
     = bare_candidate ''X'' (- 0.1) ''fuzzy_match'' \<and>
   find_best_match default_matcher (Some ''aggressive'') bohemian
       [bare_candidate ''X'' (- 0.1) ''fuzzy_match'']
     = \<lparr>m_uri = None, m_confidence = 0.0, m_reason = ''not_found''\<rparr>"
proof -
  have s: "select_candidate bohemian (bare_candidate ''X'' (- 0.1) ''fuzzy_match'') []
      = bare_candidate ''X'' (- 0.1) ''fuzzy_match''"
    using select_candidate_mem[of bohemian "bare_candidate ''X'' (- 0.1) ''fuzzy_match''" "[]"] by simp
  have r: "risk_mode_of (Some ''aggressive'') = ''aggressive''"
    by (simp add: risk_mode_of_def lower_def lower_char_def)
  have f: "c_confidence (bare_candidate u conf rsn) = conf" for u conf rsn
    by (simp add: bare_candidate_def)
  show ?thesis
    by (simp add: s r f Let_def min_conf_of_def not_found_result_def)
qed

text \<open>
  Claim C5, amended. For a non-empty candidate list \<open>c # cs\<close> the result is decided by the
  confidence of the selected candidate and a floor: the \<^verbatim>\<open>not_found\<close> result with
  confidence 0 when the confidence is below the floor, the uri, confidence and reason of
  the selected candidate when it is at or above it. The floor is the fuzzy threshold
  (0.85 by default) under \<^verbatim>\<open>strict\<close>, which is also the mode when the variable is unset,
  0.80 under \<^verbatim>\<open>balanced\<close>, and 0.0 under any other mode, so that every selected candidate
  whose confidence is not negative is returned there.
\<close>

theorem find_best_match_risk_gate:
  "(risk_mode_of env_value = ''strict'' \<longrightarrow>
      find_best_match self env_value tr (c # cs) =
        (if c_confidence (select_candidate tr c cs) < fuzzy_threshold self
         then \<lparr>m_uri = None, m_confidence = 0.0, m_reason = ''not_found''\<rparr>
         else \<lparr>m_uri = Some (c_uri (select_candidate tr c cs)),
               m_confidence = c_confidence (select_candidate tr c cs),
               m_reason = c_reason (select_candidate tr c cs)\<rparr>)) \<and>
   (risk_mode_of env_value = ''balanced'' \<longrightarrow>
      find_best_match self env_value tr (c # cs) =
        (if c_confidence (select_candidate tr c cs) < 0.80
         then \<lparr>m_uri = None, m_confidence = 0.0, m_reason = ''not_found''\<rparr>
         else \<lparr>m_uri = Some (c_uri (select_candidate tr c cs)),
               m_confidence = c_confidence (select_candidate tr c cs),
               m_reason = c_reason (select_candidate tr c cs)\<rparr>)) \<and>
   (risk_mode_of env_value \<noteq> ''strict'' \<and> risk_mode_of env_value \<noteq> ''balanced'' \<longrightarrow>
      find_best_match self env_value tr (c # cs) =
        (if c_confidence (select_candidate tr c cs) < 0.0
         then \<lparr>m_uri = None, m_confidence = 0.0, m_reason = ''not_found''\<rparr>
         else \<lparr>m_uri = Some (c_uri (select_candidate tr c cs)),
               m_confidence = c_confidence (select_candidate tr c cs),
               m_reason = c_reason (select_candidate tr c cs)\<rparr>)) \<and>
   select_candidate tr c cs \<in> set (c # cs) \<and>
   fuzzy_threshold default_matcher = 0.85 \<and>
   risk_mode_of None = ''strict''"
proof -
  have sel: "select_candidate tr c cs \<in> set (c # cs)"
    by (rule select_candidate_mem)
  have rm: "risk_mode_of None = ''strict''"
    by (simp add: risk_mode_of_def lower_def lower_char_def)
  have fb: "find_best_match self env_value tr (c # cs) =
        (if c_confidence (select_candidate tr c cs) < min_conf_of self (risk_mode_of env_value)
         then \<lparr>m_uri = None, m_confidence = 0.0, m_reason = ''not_found''\<rparr>
         else \<lparr>m_uri = Some (c_uri (select_candidate tr c cs)),
               m_confidence = c_confidence (select_candidate tr c cs),
               m_reason = c_reason (select_candidate tr c cs)\<rparr>)"
    by (simp add: Let_def not_found_result_def)
  have strict: "min_conf_of self ''strict'' = fuzzy_threshold self"
    and balanced: "min_conf_of self ''balanced'' = 0.80"
    by (simp_all add: min_conf_of_def)
  have other: "min_conf_of self m = 0.0" if "m \<noteq> ''strict''" "m \<noteq> ''balanced''" for m
    using that by (simp add: min_conf_of_def)
  have d: "fuzzy_threshold default_matcher = 0.85" by (simp add: default_matcher_def)
  show ?thesis
  proof (intro conjI impI)
    assume "risk_mode_of env_value = ''strict''"
    then show "find_best_match self env_value tr (c # cs) =
        (if c_confidence (select_candidate tr c cs) < fuzzy_threshold self
         then \<lparr>m_uri = None, m_confidence = 0.0, m_reason = ''not_found''\<rparr>
         else \<lparr>m_uri = Some (c_uri (select_candidate tr c cs)),
               m_confidence = c_confidence (select_candidate tr c cs),
               m_reason = c_reason (select_candidate tr c cs)\<rparr>)"
      using fb strict by (simp only:)
  next
    assume "risk_mode_of env_value = ''balanced''"
    then show "find_best_match self env_value tr (c # cs) =
        (if c_confidence (select_candidate tr c cs) < 0.80
         then \<lparr>m_uri = None, m_confidence = 0.0, m_reason = ''not_found''\<rparr>
         else \<lparr>m_uri = Some (c_uri (select_candidate tr c cs)),
               m_confidence = c_confidence (select_candidate tr c cs),
               m_reason = c_reason (select_candidate tr c cs)\<rparr>)"
      using fb balanced by (simp only:)
  next
    assume "risk_mode_of env_value \<noteq> ''strict'' \<and> risk_mode_of env_value \<noteq> ''balanced''"
    then have "min_conf_of self (risk_mode_of env_value) = 0.0" using other by blast
    then show "find_best_match self env_value tr (c # cs) =
        (if c_confidence (select_candidate tr c cs) < 0.0
         then \<lparr>m_uri = None, m_confidence = 0.0, m_reason = ''not_found''\<rparr>
         else \<lparr>m_uri = Some (c_uri (select_candidate tr c cs)),
               m_confidence = c_confidence (select_candidate tr c cs),
               m_reason = c_reason (select_candidate tr c cs)\<rparr>)"
      using fb by (simp only:)
  qed (rule sel, rule d, rule rm)
qed

theorem find_best_match_risk_gate_witness:
  "find_best_match default_matcher (Some ''Strict'') bohemian [bare_candidate ''X'' 0.84 ''fuzzy_match'']
     = \<lparr>m_uri = None, m_confidence = 0.0, m_reason = ''not_found''\<rparr> \<and>
   find_best_match default_matcher None bohemian [bare_candidate ''X'' 0.85 ''fuzzy_match'']
     = \<lparr>m_uri = Some ''X'', m_confidence = 0.85, m_reason = ''fuzzy_match''\<rparr> \<and>
   find_best_match default_matcher (Some ''balanced'') bohemian [bare_candidate ''X'' 0.79 ''fuzzy_match'']
     = \<lparr>m_uri = None, m_confidence = 0.0, m_reason = ''not_found''\<rparr> \<and>
   find_best_match default_matcher (Some ''balanced'') bohemian [bare_candidate ''X'' 0.80 ''fuzzy_match'']
     = \<lparr>m_uri = Some ''X'', m_confidence = 0.80, m_reason = ''fuzzy_match''\<rparr> \<and>
   find_best_match default_matcher (Some ''aggressive'') bohemian [bare_candidate ''X'' 0.10 ''fuzzy_match'']
     = \<lparr>m_uri = Some ''X'', m_confidence = 0.10, m_reason = ''fuzzy_match''\<rparr>"
proof -
  have s: "select_candidate bohemian (bare_candidate ''X'' conf ''fuzzy_match'') []
      = bare_candidate ''X'' conf ''fuzzy_match''" for conf
    using select_candidate_mem[of bohemian "bare_candidate ''X'' conf ''fuzzy_match''" "[]"] by simp
  have r: "risk_mode_of (Some ''Strict'') = ''strict''" "risk_mode_of (Some ''balanced'') = ''balanced''"
    "risk_mode_of (Some ''aggressive'') = ''aggressive''" "risk_mode_of None = ''strict''"
    by (simp_all add: risk_mode_of_def lower_def lower_char_def)
  have f: "c_confidence (bare_candidate u conf rsn) = conf" "c_uri (bare_candidate u conf rsn) = u"
    "c_reason (bare_candidate u conf rsn) = rsn" for u conf rsn
    by (simp_all add: bare_candidate_def)
  show ?thesis
    using find_best_match_risk_gate[of "Some ''Strict''" default_matcher bohemian "bare_candidate ''X'' 0.84 ''fuzzy_match''" "[]"]
      find_best_match_risk_gate[of None default_matcher bohemian "bare_candidate ''X'' 0.85 ''fuzzy_match''" "[]"]
      find_best_match_risk_gate[of "Some ''balanced''" default_matcher bohemian "bare_candidate ''X'' 0.79 ''fuzzy_match''" "[]"]
      find_best_match_risk_gate[of "Some ''balanced''" default_matcher bohemian "bare_candidate ''X'' 0.80 ''fuzzy_match''" "[]"]
      find_best_match_risk_gate[of "Some ''aggressive''" default_matcher bohemian "bare_candidate ''X'' 0.10 ''fuzzy_match''" "[]"]
    by (simp add: s r f default_matcher_def)
qed


text \<open>
  Claim C8, as stated: a result with reason \<^verbatim>\<open>isrc_exact\<close> has confidence 1.0. The matcher
  copies the confidence of the selected candidate, so a candidate tagged \<^verbatim>\<open>isrc_exact\<close>
  with confidence 0.9 refutes it.
\<close>

theorem isrc_exact_confidence_counterexample:
  "m_reason (find_best_match default_matcher None bohemian [bare_candidate ''X'' 0.9 ''isrc_exact''])
     = ''isrc_exact'' \<and>
   m_confidence (find_best_match default_matcher None bohemian [bare_candidate ''X'' 0.9 ''isrc_exact''])
     \<noteq> 1.0"
  by code_simp


text \<open>
  Claim C8, amended: if every candidate offered with reason \<^verbatim>\<open>isrc_exact\<close> has confidence
  1.0, then a result with reason \<^verbatim>\<open>isrc_exact\<close> has confidence 1.0.
\<close>

theorem isrc_exact_confidence_from_candidates:
  assumes "\<forall>x \<in> set candidates. c_reason x = ''isrc_exact'' \<longrightarrow> c_confidence x = 1.0"
    and "m_reason (find_best_match self env_value tr candidates) = ''isrc_exact''"
  shows "m_confidence (find_best_match self env_value tr candidates) = 1.0"
proof -
  from find_best_match_cases[of self env_value tr candidates]
  show ?thesis
  proof
    assume "find_best_match self env_value tr candidates = not_found_result"
    with assms(2) show ?thesis by (simp add: not_found_result_def)
  next
    assume "\<exists>x \<in> set candidates. find_best_match self env_value tr candidates =
      \<lparr>m_uri = Some (c_uri x), m_confidence = c_confidence x, m_reason = c_reason x\<rparr>"
    then obtain x where x: "x \<in> set candidates"
      and eq: "find_best_match self env_value tr candidates =
        \<lparr>m_uri = Some (c_uri x), m_confidence = c_confidence x, m_reason = c_reason x\<rparr>"
      by blast
    from eq assms(2) have "c_reason x = ''isrc_exact''" by simp
    with assms(1) x have "c_confidence x = 1.0" by blast
    with eq show ?thesis by simp
  qed
qed

theorem isrc_exact_confidence_from_candidates_witness:
  "c_reason (bare_candidate ''X'' 1.0 ''isrc_exact'') = ''isrc_exact'' \<and>
   c_confidence (bare_candidate ''X'' 1.0 ''isrc_exact'') = 1.0 \<and>
   m_reason (find_best_match default_matcher None bohemian [bare_candidate ''X'' 1.0 ''isrc_exact''])
     = ''isrc_exact'' \<and>
   m_confidence (find_best_match default_matcher None bohemian [bare_candidate ''X'' 1.0 ''isrc_exact''])
     = 1.0"
proof -
  have a: "\<forall>x \<in> set [bare_candidate ''X'' 1.0 ''isrc_exact''].
       c_reason x = ''isrc_exact'' \<longrightarrow> c_confidence x = 1.0"
    by (simp add: bare_candidate_def)
  have b: "m_reason (find_best_match default_matcher None bohemian [bare_candidate ''X'' 1.0 ''isrc_exact''])
     = ''isrc_exact''"
    by code_simp
  from isrc_exact_confidence_from_candidates[OF a b] b show ?thesis
    by (simp add: bare_candidate_def)
qed


text \<open>
  Claim C9, as stated: \<^verbatim>\<open>find_best_match\<close> never returns the reason \<^verbatim>\<open>ambiguous\<close>. The
  matcher copies the reason of the selected candidate, so a candidate that carries the
  reason \<^verbatim>\<open>ambiguous\<close> refutes it.
\<close>

theorem never_ambiguous_counterexample:
  "m_reason (find_best_match default_matcher None bohemian [bare_candidate ''X'' 0.9 ''ambiguous''])
     = ''ambiguous''"
  by code_simp


text \<open>
  Claim C9, amended: \<^verbatim>\<open>find_best_match\<close> returns either the \<^verbatim>\<open>not_found\<close> result or the
  uri, confidence and reason of one of the candidates, unchanged; so it returns the reason
  \<^verbatim>\<open>ambiguous\<close> only when a candidate carries it.
\<close>

theorem find_best_match_selected_or_not_found:
  "(find_best_match self env_value tr candidates = not_found_result \<or>
    (\<exists>x \<in> set candidates. find_best_match self env_value tr candidates =
       \<lparr>m_uri = Some (c_uri x), m_confidence = c_confidence x, m_reason = c_reason x\<rparr>)) \<and>
   ((\<forall>x \<in> set candidates. c_reason x \<noteq> ''ambiguous'')
      \<longrightarrow> m_reason (find_best_match self env_value tr candidates) \<noteq> ''ambiguous'')"
proof -
  have c: "find_best_match self env_value tr candidates = not_found_result \<or>
    (\<exists>x \<in> set candidates. find_best_match self env_value tr candidates =
       \<lparr>m_uri = Some (c_uri x), m_confidence = c_confidence x, m_reason = c_reason x\<rparr>)"
    by (rule find_best_match_cases)
  moreover have "m_reason (find_best_match self env_value tr candidates) \<noteq> ''ambiguous''"
    if "\<forall>x \<in> set candidates. c_reason x \<noteq> ''ambiguous''"
    using c
  proof
    assume "find_best_match self env_value tr candidates = not_found_result"
    then show ?thesis by (simp add: not_found_result_def)
  next
    assume "\<exists>x \<in> set candidates. find_best_match self env_value tr candidates =
       \<lparr>m_uri = Some (c_uri x), m_confidence = c_confidence x, m_reason = c_reason x\<rparr>"
    then obtain x where "x \<in> set candidates"
      "m_reason (find_best_match self env_value tr candidates) = c_reason x"
      by force
    with that show ?thesis by simp
  qed
  ultimately show ?thesis by blast
qed

theorem find_best_match_selected_or_not_found_witness:
  "c_reason (bare_candidate ''X'' 0.9 ''fuzzy_match'') \<noteq> ''ambiguous'' \<and>
   c_reason (bare_candidate ''Y'' 0.95 ''exact_match'') \<noteq> ''ambiguous'' \<and>
   m_reason (find_best_match default_matcher None bohemian
      [bare_candidate ''X'' 0.9 ''fuzzy_match'', bare_candidate ''Y'' 0.95 ''exact_match''])
     \<noteq> ''ambiguous'' \<and>
   find_best_match default_matcher None bohemian
      [bare_candidate ''X'' 0.9 ''fuzzy_match'', bare_candidate ''Y'' 0.95 ''exact_match'']
     = \<lparr>m_uri = Some ''Y'', m_confidence = 0.95, m_reason = ''exact_match''\<rparr>"
proof -
  have a: "\<forall>x \<in> set [bare_candidate ''X'' 0.9 ''fuzzy_match'', bare_candidate ''Y'' 0.95 ''exact_match''].
       c_reason x \<noteq> ''ambiguous''"
    by (simp add: bare_candidate_def)
  have v: "find_best_match default_matcher None bohemian
      [bare_candidate ''X'' 0.9 ''fuzzy_match'', bare_candidate ''Y'' 0.95 ''exact_match'']
     = \<lparr>m_uri = Some ''Y'', m_confidence = 0.95, m_reason = ''exact_match''\<rparr>"
    by code_simp
  from find_best_match_selected_or_not_found[of default_matcher None bohemian
      "[bare_candidate ''X'' 0.9 ''fuzzy_match'', bare_candidate ''Y'' 0.95 ''exact_match'']"] a v
  show ?thesis by (simp add: bare_candidate_def)
qed


subsection \<open>The false-match rate\<close>

lemma false_match_step_pair:
  "false_match_step (r, e) (f, t) =
     (if m_uri r \<noteq> None \<and> e \<noteq> None \<and> m_uri r \<noteq> e then f + 1 else f,
      if m_uri r \<noteq> None then t + 1 else t)"
  by (simp add: false_match_step_def)

lemma fold_false_match_step:
  "fold false_match_step xs (f, t) =
     (f + length (filter (\<lambda>(r, e). m_uri r \<noteq> None \<and> e \<noteq> None \<and> m_uri r \<noteq> e) xs),
      t + length (filter (\<lambda>(r, e). m_uri r \<noteq> None) xs))"
proof (induction xs arbitrary: f t)
  case Nil
  then show ?case by simp
next
  case (Cons x xs)
  obtain r e where x: "x = (r, e)" by (cases x)
  show ?case
    by (simp add: x false_match_step_pair Cons.IH)
qed

lemma length_filter_zip_fst:
  "length xs = length ys \<Longrightarrow>
   length (filter (\<lambda>(r, e). P r) (zip xs ys)) = length (filter P xs)"
  by (induction xs ys rule: list_induct2) auto


text \<open>
  Claim C7, as stated: matched results with no expected value are excluded from the
  denominator. With two matched results, one without expectation and one with a differing
  expectation, the rate so described is 1, and the code returns 1/2.
\<close>

theorem false_match_rate_denominator_counterexample:
  "calculate_false_match_rate [matched_as (Some ''A''), matched_as (Some ''B'')] [None, Some ''C''] = Inr (1 / 2) \<and>
   real (length (filter (\<lambda>(r, e). m_uri r \<noteq> None \<and> e \<noteq> None \<and> m_uri r \<noteq> e)
           (zip [matched_as (Some ''A''), matched_as (Some ''B'')] [None, Some ''C''])))
     / real (length (filter (\<lambda>(r, e). m_uri r \<noteq> None \<and> e \<noteq> None)
           (zip [matched_as (Some ''A''), matched_as (Some ''B'')] [None, Some ''C'']))) = 1"
  by (simp add: calculate_false_match_rate_def false_match_step_def matched_as_def)


text \<open>
  Claim C7, amended: \<^verbatim>\<open>calculate_false_match_rate\<close> raises on lists of different lengths;
  otherwise it returns the number of matched results (uri not \<^verbatim>\<open>None\<close>) whose expected uri
  is given and differs, divided by the number of all matched results, those with no
  expected value included; it returns 0.0 when no result is matched.
\<close>

theorem false_match_rate_counts_all_matches:
  "calculate_false_match_rate results expected_uris =
     (if length results \<noteq> length expected_uris then Inl ValueError
      else Inr (if filter (\<lambda>r. m_uri r \<noteq> None) results = [] then 0
                else real (length (filter (\<lambda>(r, e). m_uri r \<noteq> None \<and> e \<noteq> None \<and> m_uri r \<noteq> e)
                                     (zip results expected_uris)))
                     / real (length (filter (\<lambda>r. m_uri r \<noteq> None) results))))"
proof (cases "length results = length expected_uris")
  case False
  then show ?thesis by (simp add: calculate_false_match_rate_def)
next
  case True
  show ?thesis
  proof (cases "results = []")
    case True
    then show ?thesis using \<open>length results = length expected_uris\<close>
      by (simp add: calculate_false_match_rate_def)
  next
    case False
    then show ?thesis using True
      by (simp add: calculate_false_match_rate_def fold_false_match_step
          length_filter_zip_fst)
  qed
qed

theorem false_match_rate_counts_all_matches_witness: "calculate_false_match_rate [matched_as (Some ''1''), matched_as (Some ''2''), matched_as (Some ''wrong''), matched_as None]
    [Some ''1'', Some ''2'', Some ''3'', None] = Inr (1 / 3)
  \<and> calculate_false_match_rate [matched_as None] [] = Inl ValueError
  \<and> calculate_false_match_rate [matched_as None] [Some ''x''] = Inr 0"
  using false_match_rate_counts_all_matches[of "[matched_as (Some ''1''), matched_as (Some ''2''), matched_as (Some ''wrong''), matched_as None]" "[Some ''1'', Some ''2'', Some ''3'', None]"] 
   false_match_rate_counts_all_matches[of "[matched_as None]" "[]"]
   false_match_rate_counts_all_matches[of "[matched_as None]" "[Some ''x'']"]
  by (simp add: matched_as_def)

subsection \<open>The retry policy of \<^verbatim>\<open>process_batch\<close>\<close>

lemma process_loop_rate_limited:
  assumes "attempt \<le> max_retries pl"
    and "add_tracks_batch pl (add_calls w) playlist_id uris = Inl (RateLimited ms)"
    and "0 \<le> ms"
  shows "process_loop pl playlist_id uris (Suc fuel) attempt w =
     process_loop pl playlist_id uris fuel attempt
       (log_sleep (real_of_int ms / 1000) (log_call playlist_id uris (Inl (RateLimited ms)) w))"
  using assms by (simp add: log_call_def log_sleep_def Let_def)

lemma process_loop_other_retry:
  assumes "attempt \<le> max_retries pl"
    and "add_tracks_batch pl (add_calls w) playlist_id uris = Inl e"
    and "\<forall>ms. e \<noteq> RateLimited ms"
    and "attempt + 1 \<le> max_retries pl"
  shows "process_loop pl playlist_id uris (Suc fuel) attempt w =
     process_loop pl playlist_id uris fuel (attempt + 1)
       (log_sleep (2 ^ nat (attempt + 1 - 1)) (log_call playlist_id uris (Inl e) w))"
  using assms by (cases e) (simp_all add: log_call_def log_sleep_def Let_def)

lemma process_loop_other_exhausted:
  assumes "attempt \<le> max_retries pl"
    and "add_tracks_batch pl (add_calls w) playlist_id uris = Inl e"
    and "\<forall>ms. e \<noteq> RateLimited ms"
    and "attempt + 1 > max_retries pl"
  shows "process_loop pl playlist_id uris (Suc fuel) attempt w =
     (Raised TemporaryFailure, log_call playlist_id uris (Inl e) w)"
  using assms by (cases e) (simp_all add: log_call_def log_sleep_def Let_def)

lemma process_loop_success:
  assumes "attempt \<le> max_retries pl"
    and "add_tracks_batch pl (add_calls w) playlist_id uris = Inr res"
  shows "process_loop pl playlist_id uris (Suc fuel) attempt w =
     (Returned res, log_call playlist_id uris (Inr res) w)"
  using assms by (simp add: log_call_def Let_def)

lemma add_calls_log_sleep [simp]: "add_calls (log_sleep t w) = add_calls w"
  by (simp add: log_sleep_def)

lemma add_calls_log_call [simp]:
  "add_calls (log_call p u r w) = add_calls w @ [(p, u, r)]"
  by (simp add: log_call_def)

lemma rate_limited_once:
  assumes mr: "0 \<le> max_retries pl"
    and first: "add_tracks_batch pl (add_calls w) playlist_id uris = Inl (RateLimited ms)"
    and ms: "0 \<le> ms"
    and second: "add_tracks_batch pl (add_calls w @ [(playlist_id, uris, Inl (RateLimited ms))])
                   playlist_id uris = Inr res"
  shows "process_batch pl playlist_id uris job_id batch_index False (Suc (Suc fuel)) w =
     (Returned res,
      log_call playlist_id uris (Inr res)
        (log_sleep (real_of_int ms / 1000) (log_call playlist_id uris (Inl (RateLimited ms)) w)))"
proof -
  have "process_loop pl playlist_id uris (Suc (Suc fuel)) 0 w =
      process_loop pl playlist_id uris (Suc fuel) 0
        (log_sleep (real_of_int ms / 1000) (log_call playlist_id uris (Inl (RateLimited ms)) w))"
    using mr first ms by (rule process_loop_rate_limited)
  also have "\<dots> = (Returned res,
      log_call playlist_id uris (Inr res)
        (log_sleep (real_of_int ms / 1000) (log_call playlist_id uris (Inl (RateLimited ms)) w)))"
    using mr second by (intro process_loop_success) simp_all
  finally show ?thesis by (simp add: process_batch_def)
qed

lemma process_loop_script:
  assumes "follows_script pl (add_calls w) playlist_id uris es"
    and "list_all wait_ok es"
    and "0 \<le> attempt"
    and "attempt + int (failures es) \<le> max_retries pl"
  shows "process_loop pl playlist_id uris (length es + fuel) attempt w =
     process_loop pl playlist_id uris fuel (attempt + int (failures es))
       (w\<lparr>add_calls := add_calls w @ map (\<lambda>e. (playlist_id, uris, Inl e)) es,
          sleeps := sleeps w @ expected_sleeps (nat attempt) es\<rparr>)"
  using assms
proof (induction es arbitrary: w attempt)
  case Nil
  then show ?case by (simp add: failures_def)
next
  case (Cons e es)
  have len: "length (e # es) + fuel = Suc (length es + fuel)" by simp
  show ?case
  proof (cases "is_rate_limited e")
    case True
    then obtain ms where e: "e = RateLimited ms" by (cases e) auto
    let ?w = "log_sleep (real_of_int ms / 1000) (log_call playlist_id uris (Inl (RateLimited ms)) w)"
    have f: "failures (e # es) = failures es" using e by (simp add: failures_def)
    have le: "attempt \<le> max_retries pl" using Cons.prems by simp
    have step: "process_loop pl playlist_id uris (Suc (length es + fuel)) attempt w =
        process_loop pl playlist_id uris (length es + fuel) attempt ?w"
      using Cons.prems e le by (intro process_loop_rate_limited) simp_all
    have ih: "process_loop pl playlist_id uris (length es + fuel) attempt ?w =
        process_loop pl playlist_id uris fuel (attempt + int (failures es))
          (?w\<lparr>add_calls := add_calls ?w @ map (\<lambda>e. (playlist_id, uris, Inl e)) es,
              sleeps := sleeps ?w @ expected_sleeps (nat attempt) es\<rparr>)"
      using Cons.prems e f by (intro Cons.IH) simp_all
    have w: "?w\<lparr>add_calls := add_calls ?w @ map (\<lambda>e. (playlist_id, uris, Inl e)) es,
              sleeps := sleeps ?w @ expected_sleeps (nat attempt) es\<rparr>
        = w\<lparr>add_calls := add_calls w @ map (\<lambda>e. (playlist_id, uris, Inl e)) (e # es),
            sleeps := sleeps w @ expected_sleeps (nat attempt) (e # es)\<rparr>"
      using e by (simp add: log_call_def log_sleep_def)
    show ?thesis unfolding len f using step ih w by (simp only:)
  next
    case False
    then have ne: "\<forall>ms. e \<noteq> RateLimited ms" by auto
    let ?w = "log_sleep (2 ^ nat (attempt + 1 - 1)) (log_call playlist_id uris (Inl e) w)"
    have f: "failures (e # es) = Suc (failures es)" using False by (simp add: failures_def)
    have le: "attempt \<le> max_retries pl" "attempt + 1 \<le> max_retries pl"
      using Cons.prems f by simp_all
    have step: "process_loop pl playlist_id uris (Suc (length es + fuel)) attempt w =
        process_loop pl playlist_id uris (length es + fuel) (attempt + 1) ?w"
      using Cons.prems ne le by (intro process_loop_other_retry) simp_all
    have ih: "process_loop pl playlist_id uris (length es + fuel) (attempt + 1) ?w =
        process_loop pl playlist_id uris fuel (attempt + 1 + int (failures es))
          (?w\<lparr>add_calls := add_calls ?w @ map (\<lambda>e. (playlist_id, uris, Inl e)) es,
              sleeps := sleeps ?w @ expected_sleeps (nat (attempt + 1)) es\<rparr>)"
      using Cons.prems f by (intro Cons.IH) simp_all
    have es: "expected_sleeps (nat attempt) (e # es)
        = 2 ^ nat attempt # expected_sleeps (Suc (nat attempt)) es"
      using False by (cases e) simp_all
    have n: "nat (attempt + 1) = Suc (nat attempt)" using Cons.prems by simp
    have w: "?w\<lparr>add_calls := add_calls ?w @ map (\<lambda>e. (playlist_id, uris, Inl e)) es,
              sleeps := sleeps ?w @ expected_sleeps (nat (attempt + 1)) es\<rparr>
        = w\<lparr>add_calls := add_calls w @ map (\<lambda>e. (playlist_id, uris, Inl e)) (e # es),
            sleeps := sleeps w @ expected_sleeps (nat attempt) (e # es)\<rparr>"
      by (simp add: log_call_def log_sleep_def es n)
    have a: "attempt + 1 + int (failures es) = attempt + int (Suc (failures es))" by simp
    show ?thesis unfolding len f using step ih w a by (simp only:)
  qed
qed

lemma process_batch_script_success:
  assumes "follows_script pl (add_calls w) playlist_id uris es"
    and "list_all wait_ok es"
    and "int (failures es) \<le> max_retries pl"
    and "add_tracks_batch pl (add_calls w @ map (\<lambda>e. (playlist_id, uris, Inl e)) es)
           playlist_id uris = Inr res"
  shows "process_batch pl playlist_id uris job_id batch_index False (Suc (length es + fuel)) w =
     (Returned res,
      w\<lparr>add_calls := add_calls w @ map (\<lambda>e. (playlist_id, uris, Inl e)) es
                        @ [(playlist_id, uris, Inr res)],
        sleeps := sleeps w @ expected_sleeps 0 es\<rparr>)"
proof -
  let ?w = "w\<lparr>add_calls := add_calls w @ map (\<lambda>e. (playlist_id, uris, Inl e)) es,
          sleeps := sleeps w @ expected_sleeps (nat 0) es\<rparr>"
  have "process_loop pl playlist_id uris (length es + Suc fuel) 0 w =
      process_loop pl playlist_id uris (Suc fuel) (0 + int (failures es)) ?w"
    using assms(1,2,3) by (intro process_loop_script) simp_all
  also have "\<dots> = (Returned res, log_call playlist_id uris (Inr res) ?w)"
    using assms(3,4) by (intro process_loop_success) simp_all
  finally show ?thesis by (simp add: process_batch_def log_call_def)
qed

lemma process_batch_script_failure:
  assumes "follows_script pl (add_calls w) playlist_id uris es"
    and "list_all wait_ok es"
    and "int (failures es) = max_retries pl"
    and "add_tracks_batch pl (add_calls w @ map (\<lambda>e. (playlist_id, uris, Inl e)) es)
           playlist_id uris = Inl e"
    and "\<not> is_rate_limited e"
  shows "process_batch pl playlist_id uris job_id batch_index False (Suc (length es + fuel)) w =
     (Raised TemporaryFailure,
      w\<lparr>add_calls := add_calls w @ map (\<lambda>e. (playlist_id, uris, Inl e)) (es @ [e]),
        sleeps := sleeps w @ expected_sleeps 0 es\<rparr>)"
proof -
  let ?w = "w\<lparr>add_calls := add_calls w @ map (\<lambda>e. (playlist_id, uris, Inl e)) es,
          sleeps := sleeps w @ expected_sleeps (nat 0) es\<rparr>"
  have ne: "\<forall>ms. e \<noteq> RateLimited ms" using assms(5) by auto
  have "process_loop pl playlist_id uris (length es + Suc fuel) 0 w =
      process_loop pl playlist_id uris (Suc fuel) (0 + int (failures es)) ?w"
    using assms(1,2,3) by (intro process_loop_script) simp_all
  also have "\<dots> = (Raised TemporaryFailure, log_call playlist_id uris (Inl e) ?w)"
    using assms(3,4) ne by (intro process_loop_other_exhausted) simp_all
  finally show ?thesis by (simp add: process_batch_def log_call_def)
qed

text \<open>
  Claim C3. In \<^verbatim>\<open>process_batch\<close> with \<^verbatim>\<open>dry_run\<close> false, inside the loop (attempt counter at
  most \<^verbatim>\<open>max_retries\<close>): a \<^verbatim>\<open>RateLimited\<close> answer (with a wait that is not negative) causes
  one sleep of the suggested duration and a retry with the same attempt counter; any other
  exception increments the counter, and either sleeps \<open>2 ^ (attempt - 1)\<close> seconds and
  retries, or, when the counter now exceeds \<^verbatim>\<open>max_retries\<close>, raises \<^verbatim>\<open>TemporaryFailure\<close>;
  a counter above \<^verbatim>\<open>max_retries\<close> at the head of the loop raises \<^verbatim>\<open>TemporaryFailure\<close> too.
  In particular a batch write that is rate limited once and then succeeds performs exactly
  one sleep and returns the provider's \<^verbatim>\<open>AddResult\<close>.
\<close>

theorem process_batch_retry_policy:
  "(attempt \<le> max_retries pl
      \<and> add_tracks_batch pl (add_calls w) playlist_id uris = Inl (RateLimited ms) \<and> 0 \<le> ms
    \<longrightarrow> process_loop pl playlist_id uris (Suc fuel) attempt w =
          process_loop pl playlist_id uris fuel attempt
            (log_sleep (real_of_int ms / 1000)
               (log_call playlist_id uris (Inl (RateLimited ms)) w))) \<and>
   (attempt \<le> max_retries pl
      \<and> add_tracks_batch pl (add_calls w) playlist_id uris = Inl e \<and> \<not> is_rate_limited e
      \<and> attempt + 1 \<le> max_retries pl
    \<longrightarrow> process_loop pl playlist_id uris (Suc fuel) attempt w =
          process_loop pl playlist_id uris fuel (attempt + 1)
            (log_sleep (2 ^ nat (attempt + 1 - 1)) (log_call playlist_id uris (Inl e) w))) \<and>
   (attempt \<le> max_retries pl
      \<and> add_tracks_batch pl (add_calls w) playlist_id uris = Inl e \<and> \<not> is_rate_limited e
      \<and> attempt + 1 > max_retries pl
    \<longrightarrow> process_loop pl playlist_id uris (Suc fuel) attempt w =
          (Raised TemporaryFailure, log_call playlist_id uris (Inl e) w)) \<and>
   (attempt > max_retries pl
    \<longrightarrow> process_loop pl playlist_id uris fuel attempt w = (Raised TemporaryFailure, w)) \<and>
   (0 \<le> max_retries pl
      \<and> add_tracks_batch pl (add_calls w) playlist_id uris = Inl (RateLimited ms) \<and> 0 \<le> ms
      \<and> add_tracks_batch pl (add_calls w @ [(playlist_id, uris, Inl (RateLimited ms))])
           playlist_id uris = Inr res
    \<longrightarrow> process_batch pl playlist_id uris job_id batch_index False (Suc (Suc fuel)) w =
          (Returned res,
           w\<lparr>add_calls := add_calls w @ [(playlist_id, uris, Inl (RateLimited ms)),
                                          (playlist_id, uris, Inr res)],
             sleeps := sleeps w @ [real_of_int ms / 1000]\<rparr>))"
proof (intro conjI impI)
  assume "attempt \<le> max_retries pl
      \<and> add_tracks_batch pl (add_calls w) playlist_id uris = Inl (RateLimited ms) \<and> 0 \<le> ms"
  then show "process_loop pl playlist_id uris (Suc fuel) attempt w =
          process_loop pl playlist_id uris fuel attempt
            (log_sleep (real_of_int ms / 1000)
               (log_call playlist_id uris (Inl (RateLimited ms)) w))"
    by (intro process_loop_rate_limited) simp_all
next
  assume a: "attempt \<le> max_retries pl
      \<and> add_tracks_batch pl (add_calls w) playlist_id uris = Inl e \<and> \<not> is_rate_limited e
      \<and> attempt + 1 \<le> max_retries pl"
  then have "\<forall>ms. e \<noteq> RateLimited ms" by auto
  with a show "process_loop pl playlist_id uris (Suc fuel) attempt w =
          process_loop pl playlist_id uris fuel (attempt + 1)
            (log_sleep (2 ^ nat (attempt + 1 - 1)) (log_call playlist_id uris (Inl e) w))"
    by (intro process_loop_other_retry) simp_all
next
  assume a: "attempt \<le> max_retries pl
      \<and> add_tracks_batch pl (add_calls w) playlist_id uris = Inl e \<and> \<not> is_rate_limited e
      \<and> attempt + 1 > max_retries pl"
  then have "\<forall>ms. e \<noteq> RateLimited ms" by auto
  with a show "process_loop pl playlist_id uris (Suc fuel) attempt w =
          (Raised TemporaryFailure, log_call playlist_id uris (Inl e) w)"
    by (intro process_loop_other_exhausted) simp_all
next
  assume "attempt > max_retries pl"
  then show "process_loop pl playlist_id uris fuel attempt w = (Raised TemporaryFailure, w)"
    by (cases fuel) simp_all
next
  assume a: "0 \<le> max_retries pl
      \<and> add_tracks_batch pl (add_calls w) playlist_id uris = Inl (RateLimited ms) \<and> 0 \<le> ms
      \<and> add_tracks_batch pl (add_calls w @ [(playlist_id, uris, Inl (RateLimited ms))])
           playlist_id uris = Inr res"
  then have "process_batch pl playlist_id uris job_id batch_index False (Suc (Suc fuel)) w =
     (Returned res,
      log_call playlist_id uris (Inr res)
        (log_sleep (real_of_int ms / 1000) (log_call playlist_id uris (Inl (RateLimited ms)) w)))"
    by (intro rate_limited_once) simp_all
  then show "process_batch pl playlist_id uris job_id batch_index False (Suc (Suc fuel)) w =
          (Returned res,
           w\<lparr>add_calls := add_calls w @ [(playlist_id, uris, Inl (RateLimited ms)),
                                          (playlist_id, uris, Inr res)],
             sleeps := sleeps w @ [real_of_int ms / 1000]\<rparr>)"
    by (simp add: log_call_def log_sleep_def)
qed

theorem process_batch_retry_policy_witness:
  "process_batch once_limited ''target_playlist_1'' two_uris ''test_job_1'' 0 False 2 empty_world =
     (Returned \<lparr>added = 2, duplicates = 0, errors = 0\<rparr>,
      empty_world\<lparr>add_calls :=
          [(''target_playlist_1'', two_uris, Inl (RateLimited 1000)),
           (''target_playlist_1'', two_uris, Inr \<lparr>added = 2, duplicates = 0, errors = 0\<rparr>)],
        sleeps := [1]\<rparr>) \<and>
   process_loop always_failing ''target_playlist_1'' two_uris 1 0 empty_world =
     (OutOfFuel, empty_world\<lparr>add_calls := [(''target_playlist_1'', two_uris, Inl TemporaryFailure)],
        sleeps := [1]\<rparr>) \<and>
   process_loop always_failing ''target_playlist_1'' two_uris 1 3 empty_world =
     (Raised TemporaryFailure,
      empty_world\<lparr>add_calls := [(''target_playlist_1'', two_uris, Inl TemporaryFailure)]\<rparr>) \<and>
   process_loop always_failing ''target_playlist_1'' two_uris 1 4 empty_world =
     (Raised TemporaryFailure, empty_world)"
proof -
  have m: "max_retries once_limited = 3" "max_retries always_failing = 3"
    by (simp_all add: once_limited_def always_failing_def)
  have a1: "add_tracks_batch once_limited (add_calls empty_world) ''target_playlist_1'' two_uris
      = Inl (RateLimited 1000)"
    by (simp add: once_limited_def empty_world_def)
  have a2: "add_tracks_batch once_limited
      (add_calls empty_world @ [(''target_playlist_1'', two_uris, Inl (RateLimited 1000))])
      ''target_playlist_1'' two_uris = Inr \<lparr>added = 2, duplicates = 0, errors = 0\<rparr>"
    by (simp add: once_limited_def empty_world_def two_uris_def)
  have f: "add_tracks_batch always_failing calls ''target_playlist_1'' two_uris = Inl TemporaryFailure"
    for calls by (simp add: always_failing_def)
  have e: "add_calls empty_world = []" "sleeps empty_world = []"
    by (simp_all add: empty_world_def)
  have c1: "process_batch once_limited ''target_playlist_1'' two_uris ''test_job_1'' 0 False
        (Suc (Suc 0)) empty_world =
     (Returned \<lparr>added = 2, duplicates = 0, errors = 0\<rparr>,
      empty_world\<lparr>add_calls := add_calls empty_world @
          [(''target_playlist_1'', two_uris, Inl (RateLimited 1000)),
           (''target_playlist_1'', two_uris, Inr \<lparr>added = 2, duplicates = 0, errors = 0\<rparr>)],
        sleeps := sleeps empty_world @ [real_of_int 1000 / 1000]\<rparr>)"
    using process_batch_retry_policy[where attempt = 0 and pl = once_limited and w = empty_world
        and playlist_id = "''target_playlist_1''" and uris = two_uris and ms = 1000
        and e = TemporaryFailure and fuel = 0
        and res = "\<lparr>added = 2, duplicates = 0, errors = 0\<rparr>"
        and job_id = "''test_job_1''" and batch_index = 0] m a1 a2
    by simp
  have c2: "process_loop always_failing ''target_playlist_1'' two_uris (Suc 0) 0 empty_world =
      process_loop always_failing ''target_playlist_1'' two_uris 0 (0 + 1)
        (log_sleep (2 ^ nat (0 + 1 - 1))
           (log_call ''target_playlist_1'' two_uris (Inl TemporaryFailure) empty_world))"
    using process_batch_retry_policy[where attempt = 0 and pl = always_failing and w = empty_world
        and playlist_id = "''target_playlist_1''" and uris = two_uris and ms = 0
        and e = TemporaryFailure and fuel = 0] m f
    by simp
  have c3: "process_loop always_failing ''target_playlist_1'' two_uris (Suc 0) 3 empty_world =
      (Raised TemporaryFailure,
       log_call ''target_playlist_1'' two_uris (Inl TemporaryFailure) empty_world)"
    using process_batch_retry_policy[where attempt = 3 and pl = always_failing and w = empty_world
        and playlist_id = "''target_playlist_1''" and uris = two_uris and ms = 0
        and e = TemporaryFailure and fuel = 0] m f
    by simp
  have c4: "process_loop always_failing ''target_playlist_1'' two_uris 1 4 empty_world =
      (Raised TemporaryFailure, empty_world)"
    using process_batch_retry_policy[where attempt = 4 and pl = always_failing and w = empty_world
        and playlist_id = "''target_playlist_1''" and uris = two_uris and ms = 0
        and e = TemporaryFailure and fuel = 1] m
    by simp
  have two: "(2::nat) = Suc (Suc 0)" "(1::nat) = Suc 0" by simp_all
  show ?thesis
    unfolding two(1) c1 c4
    using c2 c3 m by (simp add: e log_call_def log_sleep_def)
qed

subsection \<open>Effects of the transfer on the world\<close>

lemma added_sum_simps [simp]:
  "added_sum [] = 0" "added_sum (c # cs) = added_of c + added_sum cs"
  "added_sum (xs @ ys) = added_sum xs + added_sum ys"
  by (simp_all add: added_sum_def)

lemma process_loop_effects:
  "process_loop pl playlist_id uris fuel attempt w = (out, w') \<Longrightarrow>
   store w' = store w \<and> saves w' = saves w \<and>
   (\<exists>ys. add_calls w' = add_calls w @ ys
      \<and> (\<forall>c \<in> set ys. fst (snd c) = uris)
      \<and> added_sum ys = returned_added out)"
proof (induction fuel arbitrary: attempt w out w')
  case 0
  then show ?case by (auto simp: returned_added_def split: if_splits)
next
  case (Suc fuel)
  show ?case
  proof (cases "attempt \<le> max_retries pl")
    case False
    with Suc.prems show ?thesis by (auto simp: returned_added_def)
  next
    case le: True
    let ?r = "add_tracks_batch pl (add_calls w) playlist_id uris"
    have via: ?thesis
      if rec: "process_loop pl playlist_id uris fuel a (log_sleep t (log_call playlist_id uris ?r w))
                 = (out, w')"
        and l: "?r = Inl e" for a t e
    proof -
      from Suc.IH[OF rec] obtain ys where "store w' = store w" "saves w' = saves w"
        "add_calls w' = add_calls w @ (playlist_id, uris, ?r) # ys"
        "\<forall>c \<in> set ys. fst (snd c) = uris" "added_sum ys = returned_added out"
        by (auto simp: log_call_def log_sleep_def)
      then show ?thesis using l
        by (intro conjI exI[of _ "(playlist_id, uris, ?r) # ys"]) simp_all
    qed
    show ?thesis
    proof (cases ?r)
      case (Inr res)
      with le Suc.prems have "out = Returned res" "w' = log_call playlist_id uris (Inr res) w"
        using process_loop_success[OF le Inr] by simp_all
      then show ?thesis by (simp add: returned_added_def log_call_def)
    next
      case (Inl e)
      show ?thesis
      proof (cases "is_rate_limited e")
        case True
        then obtain ms where e: "e = RateLimited ms" by (cases e) auto
        show ?thesis
        proof (cases "ms < 0")
          case True
          with le Inl e Suc.prems have "out = Raised ValueError"
            "w' = log_sleep (real_of_int ms / 1000) (log_call playlist_id uris ?r w)"
            by (simp_all add: Let_def log_call_def log_sleep_def)
          then show ?thesis using Inl by (simp add: returned_added_def log_call_def log_sleep_def)
        next
          case False
          then have "0 \<le> ms" by simp
          from process_loop_rate_limited[OF le Inl[unfolded e] this, of fuel] Suc.prems Inl e
          show ?thesis by (intro via[of attempt "real_of_int ms / 1000" e]) simp_all
        qed
      next
        case nr: False
        then have ne: "\<forall>ms. e \<noteq> RateLimited ms" by auto
        show ?thesis
        proof (cases "attempt + 1 > max_retries pl")
          case True
          from process_loop_other_exhausted[OF le Inl ne True, of fuel] Suc.prems
          have "out = Raised TemporaryFailure" "w' = log_call playlist_id uris (Inl e) w"
            by simp_all
          then show ?thesis by (simp add: returned_added_def log_call_def)
        next
          case False
          then have "attempt + 1 \<le> max_retries pl" by simp
          from process_loop_other_retry[OF le Inl ne this, of fuel] Suc.prems Inl
          show ?thesis by (intro via[of "attempt + 1" "2 ^ nat (attempt + 1 - 1)" e]) simp_all
        qed
      qed
    qed
  qed
qed

lemma process_batch_effects:
  assumes "process_batch pl playlist_id uris job_id batch_index dry_run fuel w = (out, w')"
  shows "store w' = store w \<and> saves w' = saves w \<and>
   (\<exists>ys. add_calls w' = add_calls w @ ys
      \<and> (\<forall>c \<in> set ys. fst (snd c) = uris)
      \<and> (dry_run \<longrightarrow> ys = [])
      \<and> (\<not> dry_run \<longrightarrow> added_sum ys = returned_added out))"
proof (cases dry_run)
  case True
  with assms show ?thesis by (simp add: process_batch_def)
next
  case False
  with assms have "process_loop pl playlist_id uris fuel 0 w = (out, w')"
    by (simp add: process_batch_def)
  from process_loop_effects[OF this] False show ?thesis by auto
qed

lemma process_batch_dry_run:
  "process_batch pl playlist_id uris job_id batch_index True fuel w =
     (Returned \<lparr>added = length uris, duplicates = 0, errors = 0\<rparr>, w)"
  by (simp add: process_batch_def)

lemma save_checkpoint_frame [simp]:
  "add_calls (save_checkpoint job_id playlist_id cp w) = add_calls w"
  "sleeps (save_checkpoint job_id playlist_id cp w) = sleeps w"
  by (simp_all add: save_checkpoint_def Let_def)

lemma split_into_batches_subset:
  "split_into_batches bs uris = Inr batches \<Longrightarrow> b \<in> set batches \<Longrightarrow> set b \<subseteq> set uris"
proof -
  assume a: "split_into_batches bs uris = Inr batches" and b: "b \<in> set batches"
  show ?thesis
  proof (cases "bs \<le> 0")
    case True
    with a b show ?thesis by (auto simp: split_into_batches_def split: if_splits)
  next
    case False
    with a b obtain k where "b = take (nat bs) (drop (k * nat bs) uris)"
      by (auto simp: split_into_batches_def split: if_splits)
    then show ?thesis
      using set_take_subset[of "nat bs" "drop (k * nat bs) uris"] set_drop_subset[of "k * nat bs" uris]
      by blast
  qed
qed

lemma process_batches_effects:
  "process_batches pl target_id job_id source_playlist_id dry_run fuel batch_index batches acc w
     = (out, w') \<Longrightarrow>
   (\<exists>ys. add_calls w' = add_calls w @ ys
      \<and> (\<forall>c \<in> set ys. fst (snd c) \<in> set batches)
      \<and> (dry_run \<longrightarrow> w' = w)
      \<and> (\<forall>acc'. out = Returned acc' \<and> \<not> dry_run
            \<longrightarrow> total_added acc' = total_added acc + added_sum ys))
   \<and> (\<forall>e. out \<noteq> Raised e) \<and> (dry_run \<longrightarrow> out \<noteq> OutOfFuel)"
proof (induction batches arbitrary: batch_index acc w out w')
  case Nil
  then show ?case by auto
next
  case (Cons batch_uris rest)
  let ?cp1 = "if \<not> dry_run then (checkpoint_data acc)\<lparr>batchIndex := batch_index\<rparr>
              else checkpoint_data acc"
  let ?w1 = "if \<not> dry_run then save_checkpoint job_id source_playlist_id ?cp1 w else w"
  obtain o1 w2 where pb: "process_batch pl target_id batch_uris job_id batch_index dry_run fuel ?w1
      = (o1, w2)" by (cases "process_batch pl target_id batch_uris job_id batch_index dry_run fuel ?w1")
  from process_batch_effects[OF pb] obtain ys1 where ys1:
    "add_calls w2 = add_calls w @ ys1" "\<forall>c \<in> set ys1. fst (snd c) = batch_uris"
    "dry_run \<longrightarrow> ys1 = []" "\<not> dry_run \<longrightarrow> added_sum ys1 = returned_added o1"
    by (auto split: if_splits)
  have dry: "dry_run \<Longrightarrow> w2 = w \<and> (\<exists>r. o1 = Returned r)"
    using pb by (auto simp: process_batch_def)
  show ?case
  proof (cases o1)
    case OutOfFuel
    with Cons.prems pb have "out = OutOfFuel" "w' = w2" by (simp_all add: Let_def)
    then show ?thesis using ys1 dry OutOfFuel
      by (intro conjI exI[of _ ys1]) auto
  next
    case (Returned batch_result)
    with Cons.prems pb obtain acc1 where
      rec: "process_batches pl target_id job_id source_playlist_id dry_run fuel (Suc batch_index)
              rest acc1 w2 = (out, w')"
      and ta: "total_added acc1 = total_added acc + added batch_result"
      by (simp add: Let_def)
    from Cons.IH[OF rec] obtain ys2 where ys2:
      "add_calls w' = add_calls w2 @ ys2" "\<forall>c \<in> set ys2. fst (snd c) \<in> set rest"
      "dry_run \<longrightarrow> w' = w2"
      "\<forall>acc'. out = Returned acc' \<and> \<not> dry_run \<longrightarrow> total_added acc' = total_added acc1 + added_sum ys2"
      and no: "\<forall>e. out \<noteq> Raised e" "dry_run \<longrightarrow> out \<noteq> OutOfFuel"
      by blast
    have "add_calls w' = add_calls w @ (ys1 @ ys2)" using ys1 ys2 by simp
    moreover have "\<forall>c \<in> set (ys1 @ ys2). fst (snd c) \<in> set (batch_uris # rest)"
      using ys1 ys2 by auto
    moreover have "dry_run \<longrightarrow> w' = w" using ys2 dry by auto
    moreover have "\<forall>acc'. out = Returned acc' \<and> \<not> dry_run
        \<longrightarrow> total_added acc' = total_added acc + added_sum (ys1 @ ys2)"
      using ys1 ys2 ta Returned by (simp add: returned_added_def)
    ultimately show ?thesis using no by blast
  next
    case (Raised e)
    with Cons.prems pb obtain acc1 where
      rec: "process_batches pl target_id job_id source_playlist_id dry_run fuel (Suc batch_index)
              rest acc1 w2 = (out, w')"
      and ta: "total_added acc1 = total_added acc"
      by (simp add: Let_def)
    from Cons.IH[OF rec] obtain ys2 where ys2:
      "add_calls w' = add_calls w2 @ ys2" "\<forall>c \<in> set ys2. fst (snd c) \<in> set rest"
      "dry_run \<longrightarrow> w' = w2"
      "\<forall>acc'. out = Returned acc' \<and> \<not> dry_run \<longrightarrow> total_added acc' = total_added acc1 + added_sum ys2"
      and no: "\<forall>e. out \<noteq> Raised e" "dry_run \<longrightarrow> out \<noteq> OutOfFuel"
      by blast
    have "add_calls w' = add_calls w @ (ys1 @ ys2)" using ys1 ys2 by simp
    moreover have "\<forall>c \<in> set (ys1 @ ys2). fst (snd c) \<in> set (batch_uris # rest)"
      using ys1 ys2 by auto
    moreover have "dry_run \<longrightarrow> w' = w" using ys2 dry by auto
    moreover have "\<forall>acc'. out = Returned acc' \<and> \<not> dry_run
        \<longrightarrow> total_added acc' = total_added acc + added_sum (ys1 @ ys2)"
      using ys1 ys2 ta Raised by (simp add: returned_added_def)
    ultimately show ?thesis using no by blast
  qed
qed

lemma process_matched_tracks_effects:
  assumes "process_matched_tracks pl target_playlist matched_uris match_results job_id
     source_playlist_id cp dry_run already_added_count total_tracks_opt fuel w = (out, w')"
  shows "(\<exists>ys. add_calls w' = add_calls w @ ys
      \<and> (\<forall>c \<in> set ys. set (fst (snd c)) \<subseteq> set matched_uris)
      \<and> (\<forall>r. out = Returned r \<and> \<not> dry_run
            \<longrightarrow> added_tracks r = already_added_count + added_sum ys))
   \<and> (dry_run \<longrightarrow> w' = w \<and> out \<noteq> OutOfFuel)
   \<and> (\<forall>e. out = Raised e \<longrightarrow> batch_size pl = 0)
   \<and> (\<forall>r. out = Returned r \<longrightarrow>
         (dry_run \<longrightarrow> added_tracks r = 0)
         \<and> matched_tracks r = count_matched match_results
         \<and> not_found_tracks r = count_not_found match_results
         \<and> total_tracks r = (case total_tracks_opt of None \<Rightarrow> length match_results | Some n \<Rightarrow> n))"
proof -
  let ?cp1 = "if \<not> dry_run then cp\<lparr>stage := ''writing''\<rparr> else cp"
  let ?w1 = "if \<not> dry_run then save_checkpoint job_id source_playlist_id ?cp1 w else w"
  have w1: "add_calls ?w1 = add_calls w" "dry_run \<longrightarrow> ?w1 = w" by simp_all
  show ?thesis
  proof (cases "split_into_batches (batch_size pl) matched_uris")
    case (Inl e)
    with assms have "out = Raised e" "w' = ?w1"
      by (simp_all add: process_matched_tracks_def Let_def)
    moreover have "batch_size pl = 0"
      using Inl by (auto simp: split_into_batches_def split: if_splits)
    ultimately show ?thesis using w1 by auto
  next
    case (Inr batches)
    let ?acc0 = "\<lparr>checkpoint_data = ?cp1, total_added = 0, total_duplicates = 0,
                      total_errors = 0, batch_errors = []\<rparr>"
    obtain o2 w2 where pb: "process_batches pl (p_id target_playlist) job_id source_playlist_id
        dry_run fuel 0 batches ?acc0 ?w1 = (o2, w2)"
      by (cases "process_batches pl (p_id target_playlist) job_id source_playlist_id
        dry_run fuel 0 batches ?acc0 ?w1")
    from process_batches_effects[OF pb] obtain ys where ys:
      "add_calls w2 = add_calls w @ ys" "\<forall>c \<in> set ys. fst (snd c) \<in> set batches"
      "dry_run \<longrightarrow> w2 = w"
      "\<forall>acc'. o2 = Returned acc' \<and> \<not> dry_run \<longrightarrow> total_added acc' = added_sum ys"
      and no: "\<forall>e. o2 \<noteq> Raised e" "dry_run \<longrightarrow> o2 \<noteq> OutOfFuel"
      using w1 by auto
    have sub: "\<forall>c \<in> set ys. set (fst (snd c)) \<subseteq> set matched_uris"
      using ys(2) split_into_batches_subset[OF Inr] by blast
    show ?thesis
    proof (cases o2)
      case OutOfFuel
      with assms Inr pb have "out = OutOfFuel" "w' = w2"
        by (simp_all add: process_matched_tracks_def Let_def)
      then show ?thesis using ys sub no OutOfFuel by auto
    next
      case (Raised e)
      with no show ?thesis by simp
    next
      case (Returned acc)
      let ?w3 = "if \<not> dry_run
                 then save_checkpoint job_id source_playlist_id
                        ((checkpoint_data acc)\<lparr>stage := ''completed''\<rparr>) w2
                 else w2"
      define r where "r =
          \<lparr>r_playlist_id = p_id target_playlist,
           r_playlist_name = p_name target_playlist,
           total_tracks = (case total_tracks_opt of None \<Rightarrow> length match_results
                           | Some n \<Rightarrow> n),
           matched_tracks = length (filter (\<lambda>r. m_uri r \<noteq> None) match_results),
           not_found_tracks = length (filter (\<lambda>r. m_reason r = ''not_found'') match_results),
           ambiguous_tracks = length (filter (\<lambda>r. m_reason r = ''ambiguous'') match_results),
           added_tracks = (if dry_run then 0 else total_added acc + already_added_count),
           duplicate_tracks = total_duplicates acc,
           failed_tracks = total_errors acc,
           r_errors = batch_errors acc\<rparr>"
      from assms Inr pb Returned have "out = Returned r" "w' = ?w3"
        by (simp_all add: process_matched_tracks_def Let_def r_def)
      then have r: "out = Returned r" "w' = ?w3"
        "added_tracks r = (if dry_run then 0 else total_added acc + already_added_count)"
        "matched_tracks r = count_matched match_results"
        "not_found_tracks r = count_not_found match_results"
        "total_tracks r = (case total_tracks_opt of None \<Rightarrow> length match_results | Some n \<Rightarrow> n)"
        by (simp_all add: r_def count_matched_def count_not_found_def)
      have "add_calls w' = add_calls w @ ys" using r(2) ys(1) by (cases dry_run) simp_all
      moreover have "dry_run \<longrightarrow> w' = w" using r(2) ys(3) by simp
      moreover have "\<not> dry_run \<longrightarrow> added_tracks r = already_added_count + added_sum ys"
        using r ys Returned by simp
      ultimately show ?thesis using r sub by auto
    qed
  qed
qed

lemma fresh_match_loop_effects:
  "fresh_match_loop pl job_id source_playlist_id dry_run i tracks matched_uris match_results cp w
     = (matched_uris', match_results', cp', w') \<Longrightarrow>
   match_results' = match_results @ map (match_or_error pl) tracks
   \<and> add_calls w' = add_calls w
   \<and> (dry_run \<longrightarrow> w' = w)"
proof (induction tracks arbitrary: i matched_uris match_results cp w)
  case Nil
  then show ?case by simp
next
  case (Cons tr rest)
  show ?case
  proof (cases "find_track_candidates pl tr")
    case (Inl e)
    with Cons.prems have "fresh_match_loop pl job_id source_playlist_id dry_run (Suc i) rest
        matched_uris (match_results @ [error_result]) cp w = (matched_uris', match_results', cp', w')"
      by simp
    from Cons.IH[OF this] Inl show ?thesis by (simp add: match_or_error_def)
  next
    case (Inr candidates)
    show ?thesis
    proof (cases "matcher pl tr candidates")
      case (Inl e)
      with Cons.prems Inr have "fresh_match_loop pl job_id source_playlist_id dry_run (Suc i) rest
          matched_uris (match_results @ [error_result]) cp w = (matched_uris', match_results', cp', w')"
        by simp
      from Cons.IH[OF this] Inl Inr show ?thesis by (simp add: match_or_error_def)
    next
      case r: (Inr match_res)
      with Cons.prems Inr obtain mu cp1 w1 where
        rec: "fresh_match_loop pl job_id source_playlist_id dry_run (Suc i) rest
          mu (match_results @ [match_res]) cp1 w1 = (matched_uris', match_results', cp', w')"
        and w1: "add_calls w1 = add_calls w" "dry_run \<longrightarrow> w1 = w"
        by (simp add: Let_def)
      from Cons.IH[OF rec] w1 r Inr show ?thesis by (simp add: match_or_error_def)
    qed
  qed
qed

lemma resume_match_loop_effects:
  "resume_match_loop pl already rest new_matched_uris match_results
     = Inr (new_matched_uris', match_results') \<Longrightarrow>
   set new_matched_uris \<inter> set already = {} \<Longrightarrow>
   set new_matched_uris' \<inter> set already = {}
   \<and> match_results' = match_results @ map (match_or_error pl) rest"
proof (induction rest arbitrary: new_matched_uris match_results)
  case Nil
  then show ?case by simp
next
  case (Cons tr rest)
  from Cons.prems(1) obtain candidates where c: "find_track_candidates pl tr = Inr candidates"
    by (cases "find_track_candidates pl tr") simp_all
  from Cons.prems(1) c obtain match_res where m: "matcher pl tr candidates = Inr match_res"
    by (cases "matcher pl tr candidates") simp_all
  let ?mu = "if truthy (m_uri match_res) \<and> or_empty (m_uri match_res) \<notin> set already
             then new_matched_uris @ [or_empty (m_uri match_res)] else new_matched_uris"
  from Cons.prems(1) c m have rec: "resume_match_loop pl already rest ?mu
      (match_results @ [match_res]) = Inr (new_matched_uris', match_results')"
    by simp
  have "set ?mu \<inter> set already = {}" using Cons.prems(2) by auto
  from Cons.IH[OF rec this] c m show ?case by (simp add: match_or_error_def)
qed

lemma count_matched_append_dummies:
  "count_matched (rs @ replicate n dummy_result) = count_matched rs + n"
  "count_not_found (rs @ replicate n dummy_result) = count_not_found rs"
  by (simp_all add: count_matched_def count_not_found_def dummy_result_def)

subsection \<open>Resuming from a checkpoint\<close>

text \<open>
  Claim C2. When \<^verbatim>\<open>transfer_playlist\<close> finds a checkpoint and resumes, no batch submitted to
  \<^verbatim>\<open>add_tracks_batch\<close> during the run contains a URI of the checkpoint's \<^verbatim>\<open>addedUris\<close>, and
  the result of a resumed run that is not a dry run has \<^verbatim>\<open>added_tracks\<close> equal to the number
  of \<^verbatim>\<open>addedUris\<close> recorded before plus what the provider reported as added in this run.
\<close>

theorem resume_excludes_added_uris:
  assumes "load_checkpoint job_id (p_id source_playlist) w = Some cp"
    and "transfer_playlist pl source_playlist job_id snapshot_hash dry_run fuel w = (out, w')"
  shows "add_calls w' = add_calls w @ new_calls w w' \<and>
     (\<forall>c \<in> set (new_calls w w'). set (fst (snd c)) \<inter> set (addedUris cp) = {}) \<and>
     (\<forall>r. out = Returned r \<and> \<not> dry_run
        \<longrightarrow> added_tracks r = length (addedUris cp) + added_sum (new_calls w w'))"
proof -
  from assms have res: "resume_from_checkpoint pl source_playlist job_id cp dry_run fuel w = (out, w')"
    by (simp add: transfer_playlist_def)
  have trivial: ?thesis if "w' = w" "\<forall>r. out \<noteq> Returned r"
    using that by (simp add: new_calls_def)
  show ?thesis
  proof (cases "list_tracks pl (p_id source_playlist)")
    case (Inl e)
    with res show ?thesis by (intro trivial) (auto simp: resume_from_checkpoint_def)
  next
    case tr: (Inr source_tracks)
    show ?thesis
    proof (cases "resolve_or_create_playlist pl (p_name source_playlist)")
      case (Inl e)
      with res tr show ?thesis by (intro trivial) (auto simp: resume_from_checkpoint_def)
    next
      case tp: (Inr target_playlist)
      show ?thesis
      proof (cases "resume_match_loop pl (addedUris cp) (drop (trackIndex cp) source_tracks) [] []")
        case (Inl e)
        with res tr tp show ?thesis
          by (intro trivial) (auto simp: resume_from_checkpoint_def Let_def)
      next
        case (Inr p)
        obtain new_matched_uris match_results where p: "p = (new_matched_uris, match_results)"
          by (cases p)
        from resume_match_loop_effects[OF Inr[unfolded p]]
        have disj: "set new_matched_uris \<inter> set (addedUris cp) = {}" by simp
        from res tr tp Inr p
        have pm: "process_matched_tracks pl target_playlist new_matched_uris
            (match_results @ replicate (length (addedUris cp)) dummy_result) job_id
            (p_id source_playlist) cp dry_run (length (addedUris cp))
            (Some (length source_tracks)) fuel w = (out, w')"
          by (simp add: resume_from_checkpoint_def Let_def)
        from process_matched_tracks_effects[OF pm] obtain ys where ys:
          "add_calls w' = add_calls w @ ys"
          "\<forall>c \<in> set ys. set (fst (snd c)) \<subseteq> set new_matched_uris"
          "\<forall>r. out = Returned r \<and> \<not> dry_run
             \<longrightarrow> added_tracks r = length (addedUris cp) + added_sum ys"
          by blast
        have "new_calls w w' = ys" using ys(1) by (simp add: new_calls_def)
        then show ?thesis using ys disj by blast
      qed
    qed
  qed
qed

theorem resume_excludes_added_uris_witness:
  "load_checkpoint ''test_job_1'' (p_id source_playlist_1) resumed_world = Some existing_checkpoint \<and>
   fst (transfer_playlist recovery_pipeline source_playlist_1 ''test_job_1'' None False 1 resumed_world)
     = Returned \<lparr>r_playlist_id = ''target_playlist_1'', r_playlist_name = ''Test Playlist'',
         total_tracks = 4, matched_tracks = 5, not_found_tracks = 0, ambiguous_tracks = 0,
         added_tracks = 4, duplicate_tracks = 0, failed_tracks = 0, r_errors = []\<rparr> \<and>
   new_calls resumed_world
     (snd (transfer_playlist recovery_pipeline source_playlist_1 ''test_job_1'' None False 1 resumed_world))
     = [(''target_playlist_1'', [''spotify:track:3'', ''spotify:track:4''],
         Inr \<lparr>added = 2, duplicates = 0, errors = 0\<rparr>)] \<and>
   set [''spotify:track:3'', ''spotify:track:4''] \<inter> set (addedUris existing_checkpoint) = {} \<and>
   (4::nat) = length (addedUris existing_checkpoint)
       + added_sum [(''target_playlist_1'', [''spotify:track:3'', ''spotify:track:4''],
           Inr \<lparr>added = 2, duplicates = 0, errors = 0\<rparr>)]"
proof -
  let ?t = "transfer_playlist recovery_pipeline source_playlist_1 ''test_job_1'' None False 1 resumed_world"
  have l: "load_checkpoint ''test_job_1'' (p_id source_playlist_1) resumed_world = Some existing_checkpoint"
    by (simp add: load_checkpoint_def resumed_world_def save_checkpoint_def source_playlist_1_def Let_def)
  have f: "fst ?t = Returned \<lparr>r_playlist_id = ''target_playlist_1'', r_playlist_name = ''Test Playlist'',
         total_tracks = 4, matched_tracks = 5, not_found_tracks = 0, ambiguous_tracks = 0,
         added_tracks = 4, duplicate_tracks = 0, failed_tracks = 0, r_errors = []\<rparr>"
    by code_simp
  have a: "add_calls (snd ?t) = [(''target_playlist_1'', [''spotify:track:3'', ''spotify:track:4''],
         Inr \<lparr>added = 2, duplicates = 0, errors = 0\<rparr>)]"
    by code_simp
  have e: "add_calls resumed_world = []"
    by (simp add: resumed_world_def empty_world_def)
  from resume_excludes_added_uris[OF l, of recovery_pipeline None False 1 "fst ?t" "snd ?t"]
  have "(\<forall>c \<in> set (new_calls resumed_world (snd ?t)). set (fst (snd c)) \<inter> set (addedUris existing_checkpoint) = {})
     \<and> (\<forall>r. fst ?t = Returned r \<and> \<not> False
        \<longrightarrow> added_tracks r = length (addedUris existing_checkpoint) + added_sum (new_calls resumed_world (snd ?t)))"
    by simp
  moreover have n: "new_calls resumed_world (snd ?t) = [(''target_playlist_1'', [''spotify:track:3'', ''spotify:track:4''],
         Inr \<lparr>added = 2, duplicates = 0, errors = 0\<rparr>)]"
    using a e by (simp add: new_calls_def)
  ultimately show ?thesis using l f by simp
qed

subsection \<open>Dry runs\<close>

text \<open>
  A transfer with \<^verbatim>\<open>dry_run\<close> true leaves the world as it is (no call of
  \<^verbatim>\<open>add_tracks_batch\<close>, no checkpoint saved) and its retry loops cannot run on; a result it
  returns has \<^verbatim>\<open>added_tracks\<close> 0; on a fresh start the matched and not-found counts are
  those of the match results of the source tracks, an exception of the matching step
  counting as an \<^verbatim>\<open>error\<close> result; on resume they are those of the tracks from the cursor
  on, plus one matched placeholder for every entry of \<^verbatim>\<open>addedUris\<close>. A fresh dry run whose
  providers list the tracks and resolve the playlist returns a result when the batch size
  is not zero.
\<close>

lemma dry_run_effects:
  assumes "transfer_playlist pl source_playlist job_id snapshot_hash True fuel w = (out, w')"
  shows "w' = w \<and> add_calls w' = add_calls w \<and> saves w' = saves w \<and> store w' = store w \<and>
     out \<noteq> OutOfFuel \<and>
     (\<forall>r. out = Returned r \<longrightarrow>
        added_tracks r = 0 \<and>
        (\<exists>source_tracks. list_tracks pl (p_id source_playlist) = Inr source_tracks \<and>
           total_tracks r = length source_tracks \<and>
           (case load_checkpoint job_id (p_id source_playlist) w of
              None \<Rightarrow>
                matched_tracks r = count_matched (map (match_or_error pl) source_tracks) \<and>
                not_found_tracks r = count_not_found (map (match_or_error pl) source_tracks)
            | Some cp \<Rightarrow>
                matched_tracks r =
                  count_matched (map (match_or_error pl) (drop (trackIndex cp) source_tracks))
                    + length (addedUris cp) \<and>
                not_found_tracks r =
                  count_not_found (map (match_or_error pl) (drop (trackIndex cp) source_tracks))))) \<and>
     (load_checkpoint job_id (p_id source_playlist) w = None
        \<and> (\<exists>source_tracks. list_tracks pl (p_id source_playlist) = Inr source_tracks)
        \<and> (\<exists>target. resolve_or_create_playlist pl (p_name source_playlist) = Inr target)
        \<and> batch_size pl \<noteq> 0
      \<longrightarrow> (\<exists>r. out = Returned r))"
proof -
  have main: "w' = w \<and> out \<noteq> OutOfFuel \<and>
     (\<forall>r. out = Returned r \<longrightarrow>
        added_tracks r = 0 \<and>
        (\<exists>source_tracks. list_tracks pl (p_id source_playlist) = Inr source_tracks \<and>
           total_tracks r = length source_tracks \<and>
           (case load_checkpoint job_id (p_id source_playlist) w of
              None \<Rightarrow>
                matched_tracks r = count_matched (map (match_or_error pl) source_tracks) \<and>
                not_found_tracks r = count_not_found (map (match_or_error pl) source_tracks)
            | Some cp \<Rightarrow>
                matched_tracks r =
                  count_matched (map (match_or_error pl) (drop (trackIndex cp) source_tracks))
                    + length (addedUris cp) \<and>
                not_found_tracks r =
                  count_not_found (map (match_or_error pl) (drop (trackIndex cp) source_tracks))))) \<and>
     (load_checkpoint job_id (p_id source_playlist) w = None
        \<and> (\<exists>source_tracks. list_tracks pl (p_id source_playlist) = Inr source_tracks)
        \<and> (\<exists>target. resolve_or_create_playlist pl (p_name source_playlist) = Inr target)
        \<and> batch_size pl \<noteq> 0
      \<longrightarrow> (\<exists>r. out = Returned r))"
  proof (cases "load_checkpoint job_id (p_id source_playlist) w")
    case None
    with assms have fr: "start_fresh_transfer pl source_playlist job_id snapshot_hash True fuel w
        = (out, w')" by (simp add: transfer_playlist_def)
    show ?thesis
    proof (cases "list_tracks pl (p_id source_playlist)")
      case (Inl e)
      with fr None show ?thesis by (auto simp: start_fresh_transfer_def Let_def)
    next
      case tr: (Inr source_tracks)
      show ?thesis
      proof (cases "resolve_or_create_playlist pl (p_name source_playlist)")
        case (Inl e)
        with fr tr None show ?thesis by (auto simp: start_fresh_transfer_def Let_def)
      next
        case tp: (Inr target_playlist)
        let ?cp1 = "(initial_checkpoint pl job_id snapshot_hash (p_id source_playlist))
                      \<lparr>totalTracks := length source_tracks, stage := ''matching''\<rparr>"
        obtain mu mr cp2 w2 where fl: "fresh_match_loop pl job_id (p_id source_playlist) True 0
            source_tracks [] [] ?cp1 w = (mu, mr, cp2, w2)"
          by (cases "fresh_match_loop pl job_id (p_id source_playlist) True 0
            source_tracks [] [] ?cp1 w") auto
        from fresh_match_loop_effects[OF fl]
        have mr: "mr = map (match_or_error pl) source_tracks" and w2: "w2 = w" by simp_all
        from fr tr tp fl w2
        have pm: "process_matched_tracks pl target_playlist mu mr job_id (p_id source_playlist)
            cp2 True 0 (Some (length source_tracks)) fuel w = (out, w')"
          by (simp add: start_fresh_transfer_def Let_def)
        from process_matched_tracks_effects[OF pm]
        have "w' = w" "out \<noteq> OutOfFuel" "\<forall>e. out = Raised e \<longrightarrow> batch_size pl = 0"
          "\<forall>r. out = Returned r \<longrightarrow> added_tracks r = 0
              \<and> matched_tracks r = count_matched mr \<and> not_found_tracks r = count_not_found mr
              \<and> total_tracks r = length source_tracks"
          by simp_all
        moreover have "batch_size pl \<noteq> 0 \<longrightarrow> (\<exists>r. out = Returned r)"
          using calculation(2,3) by (cases out) auto
        ultimately show ?thesis using None tr mr by auto
      qed
    qed
  next
    case (Some cp)
    with assms have res: "resume_from_checkpoint pl source_playlist job_id cp True fuel w = (out, w')"
      by (simp add: transfer_playlist_def)
    show ?thesis
    proof (cases "list_tracks pl (p_id source_playlist)")
      case (Inl e)
      with res Some show ?thesis by (auto simp: resume_from_checkpoint_def)
    next
      case tr: (Inr source_tracks)
      show ?thesis
      proof (cases "resolve_or_create_playlist pl (p_name source_playlist)")
        case (Inl e)
        with res tr Some show ?thesis by (auto simp: resume_from_checkpoint_def)
      next
        case tp: (Inr target_playlist)
        show ?thesis
        proof (cases "resume_match_loop pl (addedUris cp) (drop (trackIndex cp) source_tracks) [] []")
          case (Inl e)
          with res tr tp Some show ?thesis
            by (auto simp: resume_from_checkpoint_def Let_def)
        next
          case (Inr p)
          obtain mu mr where p: "p = (mu, mr)" by (cases p)
          from resume_match_loop_effects[OF Inr[unfolded p]]
          have mr: "mr = map (match_or_error pl) (drop (trackIndex cp) source_tracks)" by simp
          from res tr tp Inr p
          have pm: "process_matched_tracks pl target_playlist mu
              (mr @ replicate (length (addedUris cp)) dummy_result) job_id
              (p_id source_playlist) cp True (length (addedUris cp))
              (Some (length source_tracks)) fuel w = (out, w')"
            by (simp add: resume_from_checkpoint_def Let_def)
          from process_matched_tracks_effects[OF pm]
          have "w' = w" "out \<noteq> OutOfFuel"
            "\<forall>r. out = Returned r \<longrightarrow> added_tracks r = 0
                \<and> matched_tracks r = count_matched (mr @ replicate (length (addedUris cp)) dummy_result)
                \<and> not_found_tracks r = count_not_found (mr @ replicate (length (addedUris cp)) dummy_result)
                \<and> total_tracks r = length source_tracks"
            by simp_all
          then show ?thesis using Some tr mr by (auto simp: count_matched_append_dummies)
        qed
      qed
    qed
  qed
  then show ?thesis by simp
qed

text \<open>
  Claim C4. A transfer with \<^verbatim>\<open>dry_run\<close> true never calls \<^verbatim>\<open>add_tracks_batch\<close>, never saves
  a checkpoint, and reports \<^verbatim>\<open>added_tracks\<close> 0 and the matched and not-found counts of the
  actual match results. The counts are not those of the match results on the resume path:
  \<^verbatim>\<open>_resume_from_checkpoint\<close> appends one placeholder result with a uri for every entry of
  \<^verbatim>\<open>addedUris\<close>, whatever the cursor, where its comment says that the placeholders account
  for the tracks already processed, and \<^verbatim>\<open>test_dry_run.py\<close> expects 4 matched tracks of 4
  on a dry-run resume. The cursor is saved every ten tracks only, so after a complete
  transfer of the playlist of four tracks the checkpoint written by the pipeline has the
  cursor at 0 and four recorded URIs: a dry run of the same job matches the four tracks
  again and reports 8 matched tracks of 4, where the dry run without checkpoint reports 4.
  With the cursor at 1 and two recorded URIs it reports 5.
\<close>

theorem dry_run_resume_double_counts:
  "load_checkpoint ''test_job_1'' (p_id source_playlist_1) completed_world
     = Some \<lparr>jobId = ''test_job_1'', snapshotHash = None, playlistId = ''source_playlist_1'',
         batchIndex = 0, stage = ''completed'', trackIndex = 0, batchTrackIndex = 0,
         addedUris = [''spotify:track:1'', ''spotify:track:2'', ''spotify:track:3'', ''spotify:track:4''],
         attempts = 0, totalTracks = 4, processedTracks = 0, batchSize = 100\<rparr> \<and>
   list_tracks recovery_pipeline (p_id source_playlist_1) = Inr four_tracks \<and>
   count_matched (map (match_or_error recovery_pipeline) four_tracks) = 4 \<and>
   fst (transfer_playlist recovery_pipeline source_playlist_1 ''test_job_1'' None True 0 empty_world)
     = Returned \<lparr>r_playlist_id = ''target_playlist_1'', r_playlist_name = ''Test Playlist'',
         total_tracks = 4, matched_tracks = 4, not_found_tracks = 0, ambiguous_tracks = 0,
         added_tracks = 0, duplicate_tracks = 0, failed_tracks = 0, r_errors = []\<rparr> \<and>
   fst (transfer_playlist recovery_pipeline source_playlist_1 ''test_job_1'' None True 0 completed_world)
     = Returned \<lparr>r_playlist_id = ''target_playlist_1'', r_playlist_name = ''Test Playlist'',
         total_tracks = 4, matched_tracks = 8, not_found_tracks = 0, ambiguous_tracks = 0,
         added_tracks = 0, duplicate_tracks = 0, failed_tracks = 0, r_errors = []\<rparr> \<and>
   load_checkpoint ''test_job_1'' (p_id source_playlist_1) resumed_world = Some existing_checkpoint \<and>
   fst (transfer_playlist recovery_pipeline source_playlist_1 ''test_job_1'' None True 0 resumed_world)
     = Returned \<lparr>r_playlist_id = ''target_playlist_1'', r_playlist_name = ''Test Playlist'',
         total_tracks = 4, matched_tracks = 5, not_found_tracks = 0, ambiguous_tracks = 0,
         added_tracks = 0, duplicate_tracks = 0, failed_tracks = 0, r_errors = []\<rparr>"
proof -
  have "load_checkpoint ''test_job_1'' (p_id source_playlist_1) completed_world
     = Some \<lparr>jobId = ''test_job_1'', snapshotHash = None, playlistId = ''source_playlist_1'',
         batchIndex = 0, stage = ''completed'', trackIndex = 0, batchTrackIndex = 0,
         addedUris = [''spotify:track:1'', ''spotify:track:2'', ''spotify:track:3'', ''spotify:track:4''],
         attempts = 0, totalTracks = 4, processedTracks = 0, batchSize = 100\<rparr>"
    by code_simp
  moreover have "list_tracks recovery_pipeline (p_id source_playlist_1) = Inr four_tracks"
    by (simp add: recovery_pipeline_def four_tracks_def)
  moreover have "count_matched (map (match_or_error recovery_pipeline) four_tracks) = 4"
    by code_simp
  moreover have "fst (transfer_playlist recovery_pipeline source_playlist_1 ''test_job_1'' None True 0 empty_world)
     = Returned \<lparr>r_playlist_id = ''target_playlist_1'', r_playlist_name = ''Test Playlist'',
         total_tracks = 4, matched_tracks = 4, not_found_tracks = 0, ambiguous_tracks = 0,
         added_tracks = 0, duplicate_tracks = 0, failed_tracks = 0, r_errors = []\<rparr>"
    by code_simp
  moreover have "fst (transfer_playlist recovery_pipeline source_playlist_1 ''test_job_1'' None True 0 completed_world)
     = Returned \<lparr>r_playlist_id = ''target_playlist_1'', r_playlist_name = ''Test Playlist'',
         total_tracks = 4, matched_tracks = 8, not_found_tracks = 0, ambiguous_tracks = 0,
         added_tracks = 0, duplicate_tracks = 0, failed_tracks = 0, r_errors = []\<rparr>"
    by code_simp
  moreover have "load_checkpoint ''test_job_1'' (p_id source_playlist_1) resumed_world = Some existing_checkpoint"
    by (simp add: load_checkpoint_def resumed_world_def save_checkpoint_def source_playlist_1_def Let_def)
  moreover have "fst (transfer_playlist recovery_pipeline source_playlist_1 ''test_job_1'' None True 0 resumed_world)
     = Returned \<lparr>r_playlist_id = ''target_playlist_1'', r_playlist_name = ''Test Playlist'',
         total_tracks = 4, matched_tracks = 5, not_found_tracks = 0, ambiguous_tracks = 0,
         added_tracks = 0, duplicate_tracks = 0, failed_tracks = 0, r_errors = []\<rparr>"
    by code_simp
  ultimately show ?thesis by blast
qed

subsection \<open>Exceptions of the matching step\<close>

lemma fresh_transfer_absorbs_matching_errors:
  assumes "load_checkpoint job_id (p_id source_playlist) w = None"
    and "list_tracks pl (p_id source_playlist) = Inr source_tracks"
    and "transfer_playlist pl source_playlist job_id snapshot_hash dry_run fuel w = (out, w')"
    and "out = Returned r"
  shows "total_tracks r = length source_tracks
     \<and> matched_tracks r = count_matched (map (match_or_error pl) source_tracks)
     \<and> not_found_tracks r = count_not_found (map (match_or_error pl) source_tracks)"
proof -
  from assms have fr: "start_fresh_transfer pl source_playlist job_id snapshot_hash dry_run fuel w
      = (Returned r, w')" by (simp add: transfer_playlist_def)
  let ?w0 = "if \<not> dry_run then save_checkpoint job_id (p_id source_playlist)
      (initial_checkpoint pl job_id snapshot_hash (p_id source_playlist)) w else w"
  let ?cp1 = "(initial_checkpoint pl job_id snapshot_hash (p_id source_playlist))
                \<lparr>totalTracks := length source_tracks, stage := ''matching''\<rparr>"
  let ?w1 = "if \<not> dry_run then save_checkpoint job_id (p_id source_playlist) ?cp1 ?w0 else ?w0"
  from fr assms(2) obtain target_playlist where
    tp: "resolve_or_create_playlist pl (p_name source_playlist) = Inr target_playlist"
    by (cases "resolve_or_create_playlist pl (p_name source_playlist)")
       (auto simp: start_fresh_transfer_def Let_def)
  obtain mu mr cp2 w2 where fl: "fresh_match_loop pl job_id (p_id source_playlist) dry_run 0
      source_tracks [] [] ?cp1 ?w1 = (mu, mr, cp2, w2)"
    by (cases "fresh_match_loop pl job_id (p_id source_playlist) dry_run 0
      source_tracks [] [] ?cp1 ?w1") auto
  from fresh_match_loop_effects[OF fl]
  have mr: "mr = map (match_or_error pl) source_tracks" by simp
  from fr assms(2) tp fl
  have pm: "process_matched_tracks pl target_playlist mu mr job_id (p_id source_playlist)
      cp2 dry_run 0 (Some (length source_tracks)) fuel w2 = (Returned r, w')"
    by (simp add: start_fresh_transfer_def Let_def)
  from process_matched_tracks_effects[OF pm] mr show ?thesis by simp
qed

text \<open>
  Claim C6. An exception of the matching step of one track is recorded as an \<^verbatim>\<open>error\<close>
  result and the transfer goes on, on the fresh-start path and on the resume path. The
  loop of the fresh start has the \<^verbatim>\<open>try\<close>; the loop of \<^verbatim>\<open>_resume_from_checkpoint\<close> has none.
  With a candidate lookup that raises for the third of four tracks, the fresh start
  returns a result with three matched tracks, and the resumed transfer raises.
\<close>

theorem resume_aborts_on_matching_error:
  "find_track_candidates flaky_pipeline (test_track ''3'') = Inl TemporaryFailure \<and>
   load_checkpoint ''test_job_1'' (p_id source_playlist_1) empty_world = None \<and>
   fst (transfer_playlist flaky_pipeline source_playlist_1 ''test_job_1'' None False 1 empty_world)
     = Returned \<lparr>r_playlist_id = ''target_playlist_1'', r_playlist_name = ''Test Playlist'',
         total_tracks = 4, matched_tracks = 3, not_found_tracks = 0, ambiguous_tracks = 0,
         added_tracks = 3, duplicate_tracks = 0, failed_tracks = 0, r_errors = []\<rparr> \<and>
   load_checkpoint ''test_job_1'' (p_id source_playlist_1) resumed_world = Some existing_checkpoint \<and>
   fst (transfer_playlist flaky_pipeline source_playlist_1 ''test_job_1'' None False 1 resumed_world)
     = Raised TemporaryFailure"
proof -
  have "find_track_candidates flaky_pipeline (test_track ''3'') = Inl TemporaryFailure"
    by (simp add: flaky_pipeline_def test_track_def)
  moreover have "load_checkpoint ''test_job_1'' (p_id source_playlist_1) empty_world = None"
    by (simp add: load_checkpoint_def empty_world_def)
  moreover have "fst (transfer_playlist flaky_pipeline source_playlist_1 ''test_job_1'' None False 1 empty_world)
     = Returned \<lparr>r_playlist_id = ''target_playlist_1'', r_playlist_name = ''Test Playlist'',
         total_tracks = 4, matched_tracks = 3, not_found_tracks = 0, ambiguous_tracks = 0,
         added_tracks = 3, duplicate_tracks = 0, failed_tracks = 0, r_errors = []\<rparr>"
    by code_simp
  moreover have "load_checkpoint ''test_job_1'' (p_id source_playlist_1) resumed_world = Some existing_checkpoint"
    by (simp add: load_checkpoint_def resumed_world_def save_checkpoint_def source_playlist_1_def Let_def)
  moreover have "fst (transfer_playlist flaky_pipeline source_playlist_1 ''test_job_1'' None False 1 resumed_world)
     = Raised TemporaryFailure"
    by code_simp
  ultimately show ?thesis by blast
qed

subsection \<open>Idempotence of \<^verbatim>\<open>normalize_string\<close>\<close>

text \<open>
  The result of \<^const>\<open>normalize_string\<close> on a string without underscore consists of
  lower-case word characters and single spaces, has no space at either end, and has no
  token \<^verbatim>\<open>feat\<close>: the substitution of \<^verbatim>\<open>_FEAT_PATTERN\<close> leaves no such token, and the later
  steps only remove tokens or leave them as they are. Every step of \<^const>\<open>normalize_string\<close>
  leaves such a string as it is.
\<close>

subsubsection \<open>Tokens\<close>

lemma toks_Nil [simp]: "toks [] = []"
  by (simp add: toks.simps)

lemma toks_nonword [simp]: "\<not> is_word_char c \<Longrightarrow> toks (c # s) = toks s"
  by (subst toks.simps, subst (2) toks.simps) simp





subsubsection \<open>Characters, and the substitution of \<^verbatim>\<open>_FEAT_PATTERN\<close> on a run without match\<close>

lemma lower_char_not_upper: "c \<notin> set ''ABCDEFGHIJKLMNOPQRSTUVWXYZ'' \<Longrightarrow> lower_char c = c"
proof -
  assume a: "c \<notin> set ''ABCDEFGHIJKLMNOPQRSTUVWXYZ''"
  have "length ''ABCDEFGHIJKLMNOPQRSTUVWXYZ'' = length ''abcdefghijklmnopqrstuvwxyz''" by simp
  from map_of_zip_is_None[OF this, of c] a
  have "map_of (zip ''ABCDEFGHIJKLMNOPQRSTUVWXYZ'' ''abcdefghijklmnopqrstuvwxyz'') c = None"
    by blast
  then show ?thesis unfolding lower_char_def by (simp only: option.case)
qed

lemma lower_char_upper_all:
  "\<forall>c \<in> set ''ABCDEFGHIJKLMNOPQRSTUVWXYZ''. lower_char c \<in> set ''abcdefghijklmnopqrstuvwxyz''"
  by code_simp

lemma lower_set_not_upper:
  "\<forall>c \<in> set ''abcdefghijklmnopqrstuvwxyz''. c \<notin> set ''ABCDEFGHIJKLMNOPQRSTUVWXYZ''"
  by simp

lemma lower_char_cases:
  "lower_char c = c \<or> (c \<in> set ''ABCDEFGHIJKLMNOPQRSTUVWXYZ'' \<and> lower_char c \<in> set ''abcdefghijklmnopqrstuvwxyz'')"
  using lower_char_not_upper[of c] lower_char_upper_all by blast

lemma lower_char_lower: "c \<in> set ''abcdefghijklmnopqrstuvwxyz'' \<Longrightarrow> lower_char c = c"
  using lower_set_not_upper lower_char_not_upper[of c] by blast

lemma lower_char_idem [simp]: "lower_char (lower_char c) = lower_char c"
  using lower_char_cases[of c] lower_char_lower[of "lower_char c"] by metis







lemma opener_not_space: "is_opener c \<Longrightarrow> \<not> is_space_char c"
  by (auto simp: is_space_char_def is_opener_def)





lemma ci_prefix_Nil [simp]: "ci_prefix [] s"
  by (simp add: ci_prefix_def)








subsubsection \<open>Where \<^verbatim>\<open>_FEAT_PATTERN\<close> matches\<close>












subsubsection \<open>The substitution of \<^verbatim>\<open>_FEAT_PATTERN\<close> leaves no token \<^verbatim>\<open>feat\<close>\<close>









subsubsection \<open>The removal of bracketed content only removes tokens\<close>

















subsubsection \<open>Whitespace steps keep the tokens\<close>












subsubsection \<open>Single-spaced strings\<close>














lemma replace_char_removes: "c \<notin> set r \<Longrightarrow> c \<notin> set (replace_char c r s)"
  by (induction s) (auto simp: replace_char_def)

subsubsection \<open>The steps of \<^verbatim>\<open>normalize_string\<close>\<close>










end
